theory Spec2Isabelle
  imports Main "HOL-Library.Monad_Syntax"
begin

section \<open>TSDATA format engine: header parsing, metadata validation, line validation\<close>

text \<open>
  A shallow embedding of \<^verbatim>\<open>tsdata.go\<close>. Go strings are byte sequences, so a string is a
  \<^typ>\<open>char list\<close> of 8-bit characters. The receiver \<^verbatim>\<open>*Tsdata\<close> that the methods
  mutate is passed in and returned. An \<^verbatim>\<open>error\<close> return is a value of the datatype
  \<open>error\<close>, one constructor per \<^verbatim>\<open>fmt.Errorf\<close> call site; a run-time panic
  (slice index out of range, call of a nil function) is a separate outcome.
\<close>

subsection \<open>Constants\<close>

text \<open>\<^verbatim>\<open>const Delim = "\t"\<close>: the program only ever splits and joins on one-byte
  constant separators, so separators are characters here.\<close>

definition Delim :: char where
  "Delim = CHR 0x09"

definition newline :: char where
  "newline = CHR 0x0A"

definition NA :: string where
  "NA = ''NA''"

definition HeaderSize :: nat where
  "HeaderSize = 7"

subsection \<open>The functions of package \<^verbatim>\<open>strings\<close> that the program calls\<close>

text \<open>\<^verbatim>\<open>strings.Split(s, sep)\<close> for a one-byte separator: the pieces between the
  occurrences of \<open>sep\<close>; never the empty slice, \<^verbatim>\<open>Split("", sep)\<close> is one empty
  string.\<close>

fun Split :: "string \<Rightarrow> char \<Rightarrow> string list" where
  "Split [] sep = [[]]"
| "Split (c # cs) sep =
     (if c = sep then [] # Split cs sep
      else case Split cs sep of x # xs \<Rightarrow> (c # x) # xs | [] \<Rightarrow> [[c]])"

text \<open>\<^verbatim>\<open>strings.Join(elems, sep)\<close>.\<close>

fun Join :: "string list \<Rightarrow> char \<Rightarrow> string" where
  "Join [] sep = []"
| "Join [x] sep = x"
| "Join (x # y # ys) sep = x @ sep # Join (y # ys) sep"

text \<open>\<^verbatim>\<open>strings.TrimSuffix(s, suffix)\<close>.\<close>

definition TrimSuffix :: "string \<Rightarrow> string \<Rightarrow> string" where
  "TrimSuffix s suffix =
     (if length suffix \<le> length s \<and> drop (length s - length suffix) s = suffix
      then take (length s - length suffix) s else s)"

text \<open>\<^verbatim>\<open>strings.TrimRight(s, cutset)\<close> for a cutset of ASCII characters: the trailing
  bytes that belong to the cutset are removed.\<close>

definition TrimRight :: "string \<Rightarrow> string \<Rightarrow> string" where
  "TrimRight s cutset = rev (dropWhile (\<lambda>c. c \<in> set cutset) (rev s))"

text \<open>
  \<^verbatim>\<open>strings.TrimSpace(s)\<close> removes leading, then trailing, white space as defined by
  Unicode (\<^verbatim>\<open>unicode.IsSpace\<close>). On the bytes of the string these are the UTF-8 encodings
  of U+0009..U+000D, U+0020, U+0085, U+00A0, U+1680, U+2000..U+200A, U+2028, U+2029, U+202F,
  U+205F and U+3000. A byte sequence that is not one of these encodings decodes to another
  rune or to the error rune, neither of which is white space.
\<close>

definition spaceRunes :: "string list" where
  "spaceRunes =
     [[CHR 0x09], [CHR 0x0A], [CHR 0x0B], [CHR 0x0C], [CHR 0x0D], [CHR 0x20],
      [CHR 0xC2, CHR 0x85], [CHR 0xC2, CHR 0xA0],
      [CHR 0xE1, CHR 0x9A, CHR 0x80],
      [CHR 0xE2, CHR 0x80, CHR 0x80], [CHR 0xE2, CHR 0x80, CHR 0x81],
      [CHR 0xE2, CHR 0x80, CHR 0x82], [CHR 0xE2, CHR 0x80, CHR 0x83],
      [CHR 0xE2, CHR 0x80, CHR 0x84], [CHR 0xE2, CHR 0x80, CHR 0x85],
      [CHR 0xE2, CHR 0x80, CHR 0x86], [CHR 0xE2, CHR 0x80, CHR 0x87],
      [CHR 0xE2, CHR 0x80, CHR 0x88], [CHR 0xE2, CHR 0x80, CHR 0x89],
      [CHR 0xE2, CHR 0x80, CHR 0x8A],
      [CHR 0xE2, CHR 0x80, CHR 0xA8], [CHR 0xE2, CHR 0x80, CHR 0xA9],
      [CHR 0xE2, CHR 0x80, CHR 0xAF], [CHR 0xE2, CHR 0x81, CHR 0x9F],
      [CHR 0xE3, CHR 0x80, CHR 0x80]]"

text \<open>The width in bytes of a white-space rune at the start (at the end) of \<open>s\<close>, and 0
  when there is none.\<close>

definition leadingSpace :: "string \<Rightarrow> nat" where
  "leadingSpace s =
     (case find (\<lambda>w. take (length w) s = w) spaceRunes of
        None \<Rightarrow> 0 | Some w \<Rightarrow> length w)"

definition trailingSpace :: "string \<Rightarrow> nat" where
  "trailingSpace s =
     (case find (\<lambda>w. length w \<le> length s \<and> drop (length s - length w) s = w) spaceRunes of
        None \<Rightarrow> 0 | Some w \<Rightarrow> length w)"

function TrimLeftSpace :: "string \<Rightarrow> string" where
  "TrimLeftSpace s =
     (if leadingSpace s = 0 then s else TrimLeftSpace (drop (leadingSpace s) s))"
  by pat_completeness auto
termination
proof (relation "measure length")
  fix s :: string
  assume pos: "leadingSpace s \<noteq> 0"
  have "s \<noteq> []"
  proof
    assume "s = []"
    then have "find (\<lambda>w. take (length w) s = w) spaceRunes = None"
      by (simp add: find_None_iff spaceRunes_def)
    with pos show False by (simp add: leadingSpace_def)
  qed
  with pos show "(drop (leadingSpace s) s, s) \<in> measure length" by simp
qed simp

function TrimRightSpace :: "string \<Rightarrow> string" where
  "TrimRightSpace s =
     (if trailingSpace s = 0 then s else TrimRightSpace (take (length s - trailingSpace s) s))"
  by pat_completeness auto
termination
proof (relation "measure length")
  fix s :: string
  assume pos: "trailingSpace s \<noteq> 0"
  have "s \<noteq> []"
  proof
    assume "s = []"
    then have "find (\<lambda>w. length w \<le> length s \<and> drop (length s - length w) s = w) spaceRunes
                 = None"
      by (simp add: find_None_iff spaceRunes_def)
    with pos show False by (simp add: trailingSpace_def)
  qed
  with pos show "(take (length s - trailingSpace s) s, s) \<in> measure length" by simp
qed simp

definition TrimSpace :: "string \<Rightarrow> string" where
  "TrimSpace s = TrimRightSpace (TrimLeftSpace s)"

subsection \<open>\<^verbatim>\<open>time.Parse(time.RFC3339, value)\<close>\<close>

text \<open>
  The standard library's \<^verbatim>\<open>time.Parse\<close> at the one layout the program passes,
  \<^verbatim>\<open>time.RFC3339 = "2006-01-02T15:04:05Z07:00"\<close>, following the library's parser
  chunk by chunk (Go 1.13, the release the repository's README names): a four-digit year,
  \<^verbatim>\<open>-\<close>, a two-digit month, \<^verbatim>\<open>-\<close>, a two-digit day, the letter \<^verbatim>\<open>T\<close>, an
  hour of one or two digits, \<^verbatim>\<open>:\<close>, two-digit minute, \<^verbatim>\<open>:\<close>, two-digit second, an
  optional fraction, and a zone that is either \<^verbatim>\<open>Z\<close> or a signed \<^verbatim>\<open>hh:mm\<close>. The
  result keeps the civil fields and the zone offset in seconds (\<open>None\<close> for \<^verbatim>\<open>Z\<close>); the
  name of the \<^verbatim>\<open>Location\<close> attached to a numeric offset depends on the machine's local
  zone and is not part of the model.
\<close>

record time_Time =
  year :: int
  month :: int
  day :: int
  hour :: int
  minute :: int
  second :: int
  nanosecond :: int
  zone :: "int option"

definition isDigit :: "string \<Rightarrow> nat \<Rightarrow> bool" where
  "isDigit s i = (i < length s \<and> 48 \<le> (of_char (s ! i) :: nat) \<and> (of_char (s ! i) :: nat) \<le> 57)"

definition digitVal :: "char \<Rightarrow> int" where
  "digitVal c = of_char c - 48"

text \<open>\<^verbatim>\<open>getnum(s, fixed)\<close>: a number of one or two digits, of exactly two when
  \<open>fixed\<close>.\<close>

definition getnum :: "string \<Rightarrow> bool \<Rightarrow> (int \<times> string) option" where
  "getnum s fixed =
     (if \<not> isDigit s 0 then None
      else if \<not> isDigit s 1 then
        (if fixed then None else Some (digitVal (s ! 0), drop 1 s))
      else Some (digitVal (s ! 0) * 10 + digitVal (s ! 1), drop 2 s))"

text \<open>\<^verbatim>\<open>leadingInt\<close> consumes the leading digits into an \<^verbatim>\<open>int64\<close> and fails on
  overflow; \<^verbatim>\<open>atoi\<close> accepts an optional sign and requires that nothing is left.\<close>

fun leadingInt :: "int \<Rightarrow> string \<Rightarrow> (int \<times> string) option" where
  "leadingInt x [] = Some (x, [])"
| "leadingInt x (c # cs) =
     (if \<not> isDigit [c] 0 then Some (x, c # cs)
      else if x > (2 ^ 63 - 1) div 10 then None
      else if x * 10 + digitVal c > 2 ^ 63 - 1 then None
      else leadingInt (x * 10 + digitVal c) cs)"

definition atoi :: "string \<Rightarrow> int option" where
  "atoi s =
     (let neg = (s \<noteq> [] \<and> hd s = CHR ''-'');
          s' = (if s \<noteq> [] \<and> (hd s = CHR ''-'' \<or> hd s = CHR ''+'') then tl s else s)
      in case leadingInt 0 s' of
           None \<Rightarrow> None
         | Some (q, rem) \<Rightarrow> if rem \<noteq> [] then None else Some (if neg then - q else q))"

text \<open>\<^verbatim>\<open>skip(value, prefix)\<close> for the literal chunks of this layout (\<^verbatim>\<open>-\<close>,
  \<^verbatim>\<open>T\<close>, \<^verbatim>\<open>:\<close>); the library's branch for a space in the prefix cannot be reached
  from it.\<close>

fun skip :: "string \<Rightarrow> string \<Rightarrow> string option" where
  "skip value [] = Some value"
| "skip value (p # ps) =
     (case value of [] \<Rightarrow> None | v # vs \<Rightarrow> if v \<noteq> p then None else skip vs ps)"

definition parseNanoseconds :: "string \<Rightarrow> nat \<Rightarrow> int option" where
  "parseNanoseconds value nbytes =
     (if value ! 0 \<noteq> CHR ''.'' then None
      else case atoi (take (nbytes - 1) (drop 1 value)) of
             None \<Rightarrow> None
           | Some ns \<Rightarrow> if ns < 0 \<or> 10 ^ 9 \<le> ns then None else Some (ns * 10 ^ (10 - nbytes)))"

definition isLeap :: "int \<Rightarrow> bool" where
  "isLeap y = (y mod 4 = 0 \<and> (y mod 100 \<noteq> 0 \<or> y mod 400 = 0))"

definition daysBefore :: "int list" where
  "daysBefore = [0, 31, 59, 90, 120, 151, 181, 212, 243, 273, 304, 334, 365]"

definition daysIn :: "int \<Rightarrow> int \<Rightarrow> int" where
  "daysIn m y =
     (if m = 2 \<and> isLeap y then 29 else daysBefore ! nat m - daysBefore ! nat (m - 1))"

text \<open>The zone chunk \<^verbatim>\<open>Z07:00\<close>: the letter \<^verbatim>\<open>Z\<close>, or a sign, two characters of
  hours, a colon and two characters of minutes, the numbers read by \<^verbatim>\<open>atoi\<close>.\<close>

definition parseZone :: "string \<Rightarrow> (int option \<times> string) option" where
  "parseZone value =
     (if 1 \<le> length value \<and> value ! 0 = CHR ''Z'' then Some (None, drop 1 value)
      else if length value < 6 then None
      else if value ! 3 \<noteq> CHR '':'' then None
      else do {
        hr \<leftarrow> atoi (take 2 (drop 1 value));
        mm \<leftarrow> atoi (take 2 (drop 4 value));
        ss \<leftarrow> atoi ''00'';
        if value ! 0 = CHR ''+'' then Some (Some ((hr * 60 + mm) * 60 + ss), drop 6 value)
        else if value ! 0 = CHR ''-'' then Some (Some (- ((hr * 60 + mm) * 60 + ss)), drop 6 value)
        else None
      })"

text \<open>The chunks \<^verbatim>\<open>2006-01-02\<close>: year, month and day with the literal hyphens between
  them. The day is checked against the month at the very end of the parse.\<close>

definition parseDate :: "string \<Rightarrow> ((int \<times> int \<times> int) \<times> string) option" where
  "parseDate value =
     do {
       y \<leftarrow> (if length value < 4 \<or> \<not> isDigit value 0 then None else atoi (take 4 value));
       v \<leftarrow> skip (drop 4 value) ''-'';
       (mo, v) \<leftarrow> getnum v True;
       v \<leftarrow> (if mo \<le> 0 \<or> 12 < mo then None else skip v ''-'');
       (d, v) \<leftarrow> getnum v True;
       Some ((y, mo, d), v)
     }"

text \<open>The chunks \<^verbatim>\<open>15:04:05\<close>: hour, minute and second, and after the second a fraction
  that the value has although the layout has none.\<close>

definition parseClock :: "string \<Rightarrow> ((int \<times> int \<times> int \<times> int) \<times> string) option" where
  "parseClock value =
     do {
       (h, v) \<leftarrow> getnum value False;
       v \<leftarrow> (if h < 0 \<or> 24 \<le> h then None else skip v '':'');
       (mi, v) \<leftarrow> getnum v True;
       v \<leftarrow> (if mi < 0 \<or> 60 \<le> mi then None else skip v '':'');
       (sec, v) \<leftarrow> getnum v True;
       (ns, v) \<leftarrow>
         (if sec < 0 \<or> 60 \<le> sec then None
          else if 2 \<le> length v \<and> v ! 0 = CHR ''.'' \<and> isDigit v 1 then
            (let n = 2 + length (takeWhile (\<lambda>c. isDigit [c] 0) (drop 2 v))
             in map_option (\<lambda>ns. (ns, drop n v)) (parseNanoseconds v n))
          else Some (0, v));
       Some ((h, mi, sec, ns), v)
     }"

text \<open>The whole layout: date, the letter \<^verbatim>\<open>T\<close>, clock, zone, nothing after it, and the
  day within the month.\<close>

definition parseRFC3339 :: "string \<Rightarrow> time_Time option" where
  "parseRFC3339 value =
     do {
       ((y, mo, d), v) \<leftarrow> parseDate value;
       v \<leftarrow> skip v ''T'';
       ((h, mi, sec, ns), v) \<leftarrow> parseClock v;
       (z, v) \<leftarrow> parseZone v;
       if v \<noteq> [] then None
       else if d < 1 \<or> daysIn mo y < d then None
       else Some \<lparr>year = y, month = mo, day = d, hour = h, minute = mi, second = sec,
                  nanosecond = ns, zone = z\<rparr>
     }"

subsection \<open>\<^verbatim>\<open>strconv.ParseInt(s, 10, 64)\<close> and \<^verbatim>\<open>strconv.ParseFloat(s, 64)\<close>\<close>

text \<open>\<^verbatim>\<open>ParseUint\<close> at base 10 and 64 bits: every byte a decimal digit, the value
  below \<open>2 ^ 64\<close>; \<open>None\<close> is a syntax or a range error.\<close>

fun parseUintLoop :: "int \<Rightarrow> string \<Rightarrow> int option" where
  "parseUintLoop n [] = Some n"
| "parseUintLoop n (c # cs) =
     (if \<not> isDigit [c] 0 then None
      else if n \<ge> (2 ^ 64 - 1) div 10 + 1 then None
      else if n * 10 + digitVal c > 2 ^ 64 - 1 then None
      else parseUintLoop (n * 10 + digitVal c) cs)"

definition ParseUint :: "string \<Rightarrow> int option" where
  "ParseUint s = (if s = [] then None else parseUintLoop 0 s)"

definition ParseInt :: "string \<Rightarrow> int option" where
  "ParseInt s =
     (if s = [] then None
      else let neg = (hd s = CHR ''-'');
               s' = (if hd s = CHR ''+'' \<or> hd s = CHR ''-'' then tl s else s)
           in case ParseUint s' of
                None \<Rightarrow> None
              | Some un \<Rightarrow>
                  if \<not> neg \<and> un \<ge> 2 ^ 63 then None
                  else if neg \<and> un > 2 ^ 63 then None
                  else Some (if neg then - un else un))"

text \<open>
  \<^verbatim>\<open>strconv.ParseFloat\<close> produces IEEE 754 values, which this embedding does not
  contain. \<^verbatim>\<open>checkFloat\<close> discards the value and only tests the returned error, so the
  function enters as a parameter \<open>pf\<close>: \<open>pf s\<close> holds when \<^verbatim>\<open>ParseFloat(s, 64)\<close> returns a
  nil error. Every statement below holds for every such \<open>pf\<close>.
\<close>

subsection \<open>The type checkers\<close>

definition checkTime :: "string \<Rightarrow> bool" where
  "checkTime s = (case parseRFC3339 s of None \<Rightarrow> s = NA | Some _ \<Rightarrow> True)"

definition checkFloat :: "(string \<Rightarrow> bool) \<Rightarrow> string \<Rightarrow> bool" where
  "checkFloat pf s = (if \<not> pf s then s = NA else True)"

definition checkInteger :: "string \<Rightarrow> bool" where
  "checkInteger s = (case ParseInt s of None \<Rightarrow> s = NA | Some _ \<Rightarrow> True)"

definition checkText :: "string \<Rightarrow> bool" where
  "checkText s = True"

definition checkCategory :: "string \<Rightarrow> bool" where
  "checkCategory s = (s \<noteq> [])"

definition checkBoolean :: "string \<Rightarrow> bool" where
  "checkBoolean s = (s = ''TRUE'' \<or> s = ''FALSE'' \<or> s = NA)"

text \<open>\<^verbatim>\<open>var typecheckers = map[string]func(string) bool{...}\<close>; a key that is absent
  yields \<open>None\<close>, Go's nil function with \<^verbatim>\<open>ok == false\<close>.\<close>

definition typecheckers :: "(string \<Rightarrow> bool) \<Rightarrow> string \<Rightarrow> (string \<Rightarrow> bool) option" where
  "typecheckers pf =
     map_of [(''time'', checkTime), (''float'', checkFloat pf), (''integer'', checkInteger),
             (''text'', checkText), (''category'', checkCategory), (''boolean'', checkBoolean)]"

subsection \<open>Errors, panics and the data model\<close>

text \<open>One constructor per \<^verbatim>\<open>fmt.Errorf\<close> call of the source, carrying the values the
  format string receives; the names are those of the specification's error taxonomy.\<close>

datatype error =
    HeaderShapeError nat nat
  | MissingFileType
  | MissingProject
  | EmptyComment nat
  | MissingTypes
  | CommentCountMismatch
  | UnknownType string nat
  | MissingUnits
  | UnitCountMismatch
  | EmptyUnit nat
  | MissingHeaders
  | HeaderCountMismatch
  | FirstColumnNotTime
  | EmptyHeader nat
  | NoDataColumns
  | TooFewColumns nat
  | ColumnCountMismatch nat nat
  | InvalidTimestamp string
  | ColumnValidationError nat string



text \<open>The two run-time panics the source can raise: an index beyond the length of
  \<^verbatim>\<open>t.checkers\<close>, and the call of a nil entry of it.\<close>

datatype panic = IndexOutOfRange nat nat | NilFunctionCall

datatype 'a outcome = Returned 'a | Failed error | Panicked panic

text \<open>\<^verbatim>\<open>type Tsdata struct\<close>. An entry of \<open>checkers\<close> is \<open>None\<close> for Go's nil function.\<close>

record Tsdata =
  checkers :: "(string \<Rightarrow> bool) option list"
  lastTime :: time_Time
  FileType :: string
  Project :: string
  FileDescription :: string
  Comments :: "string list"
  Types :: "string list"
  Units :: "string list"
  Headers :: "string list"

text \<open>\<^verbatim>\<open>type Data struct\<close>.\<close>

record Data =
  Fields :: "string list"
  Time :: time_Time

subsection \<open>\<^verbatim>\<open>ValidateMetadata\<close>\<close>

text \<open>\<^verbatim>\<open>for i, x := range xs { if P(x) { return ... } }\<close>: the index of the first element
  that satisfies \<open>P\<close>, counted from \<open>i\<close>.\<close>

fun rangeFind :: "('a \<Rightarrow> bool) \<Rightarrow> nat \<Rightarrow> 'a list \<Rightarrow> nat option" where
  "rangeFind P i [] = None"
| "rangeFind P i (x # xs) = (if P x then Some i else rangeFind P (Suc i) xs)"

definition ValidateMetadata :: "(string \<Rightarrow> bool) \<Rightarrow> Tsdata \<Rightarrow> error option" where
  "ValidateMetadata pf t =
     (if FileType t = [] then Some MissingFileType
      else if Project t = [] then Some MissingProject
      else
        let colCount = (if length (Comments t) > 0 then length (Comments t) else 0) in
        case (if length (Comments t) > 0 then rangeFind (\<lambda>com. com = []) 0 (Comments t)
              else None) of
          Some i \<Rightarrow> Some (EmptyComment (i + 1))
        | None \<Rightarrow>
            if length (Types t) = 0 then Some MissingTypes
            else if colCount > 0 \<and> length (Types t) \<noteq> colCount then Some CommentCountMismatch
            else
              case rangeFind (\<lambda>ty. Option.is_none (typecheckers pf ty)) 0 (Types t) of
                Some i \<Rightarrow> Some (UnknownType (Types t ! i) (i + 1))
              | None \<Rightarrow>
                  let colCount = length (Types t) in
                  if length (Units t) = 0 then Some MissingUnits
                  else if length (Units t) \<noteq> colCount then Some UnitCountMismatch
                  else
                    case rangeFind (\<lambda>u. u = []) 0 (Units t) of
                      Some i \<Rightarrow> Some (EmptyUnit (i + 1))
                    | None \<Rightarrow>
                        if length (Headers t) = 0 then Some MissingHeaders
                        else if length (Headers t) \<noteq> colCount then Some HeaderCountMismatch
                        else if Headers t ! 0 \<noteq> ''time'' then Some FirstColumnNotTime
                        else
                          case rangeFind (\<lambda>h. h = []) 0 (Headers t) of
                            Some i \<Rightarrow> Some (EmptyHeader (i + 1))
                          | None \<Rightarrow> if colCount < 2 then Some NoDataColumns else None)"

subsection \<open>\<^verbatim>\<open>ParseHeader\<close>\<close>

text \<open>
  The receiver is returned next to the error. With a wrong line count the method returns
  before it assigns anything; otherwise the fields are assigned, also when validation then
  fails. A line that is empty after trimming leaves the receiver's slice as it was.
  \<^verbatim>\<open>strings.Split(...)[0]\<close> is in range, the result of \<open>Split\<close> having at least one
  element.
\<close>

definition ParseHeader :: "(string \<Rightarrow> bool) \<Rightarrow> Tsdata \<Rightarrow> string \<Rightarrow> Tsdata \<times> error option" where
  "ParseHeader pf t header =
     (let header' = TrimSuffix header [newline];
          headerLines0 = Split header' newline
      in if length headerLines0 \<noteq> HeaderSize
         then (t, Some (HeaderShapeError HeaderSize (length headerLines0)))
         else
           let headerLines = map (\<lambda>l. TrimRight l [CHR 0x20, CHR 0x09, CHR 0x0D]) headerLines0;
               t = t\<lparr>FileType := Split (headerLines ! 0) Delim ! 0\<rparr>;
               t = t\<lparr>Project := Split (headerLines ! 1) Delim ! 0\<rparr>;
               t = t\<lparr>FileDescription := Split (headerLines ! 2) Delim ! 0\<rparr>;
               t = (if headerLines ! 3 \<noteq> []
                    then t\<lparr>Comments := map TrimSpace (Split (headerLines ! 3) Delim)\<rparr> else t);
               t = (if headerLines ! 4 \<noteq> []
                    then t\<lparr>Types := map TrimSpace (Split (headerLines ! 4) Delim)\<rparr> else t);
               t = (if headerLines ! 5 \<noteq> []
                    then t\<lparr>Units := map TrimSpace (Split (headerLines ! 5) Delim)\<rparr> else t);
               t = (if headerLines ! 6 \<noteq> []
                    then t\<lparr>Headers := map TrimSpace (Split (headerLines ! 6) Delim)\<rparr> else t);
               t = t\<lparr>checkers := map (typecheckers pf) (Types t)\<rparr>
           in (t, ValidateMetadata pf t))"

subsection \<open>\<^verbatim>\<open>Header\<close>\<close>

definition nas :: "nat \<Rightarrow> string" where
  "nas n = Join (replicate n NA) Delim"

definition Header :: "Tsdata \<Rightarrow> string" where
  "Header t =
     (let cols = length (Headers t);
          text = FileType t @ [newline];
          text = text @ Project t @ [newline];
          text = text @ FileDescription t @ [newline];
          text = (if length (Comments t) = 0 then text @ nas cols @ [newline]
                  else text @ Join (Comments t) Delim @ [newline]);
          text = text @ Join (Types t) Delim @ [newline];
          text = text @ Join (Units t) Delim @ [newline];
          text = text @ Join (Headers t) Delim
      in text)"

subsection \<open>\<^verbatim>\<open>ValidateLine\<close>\<close>

text \<open>The source's slice \<^verbatim>\<open>fields\<close> is \<open>flds\<close> here, the record package having taken
  the name. The loop \<^verbatim>\<open>for i := 1; i < len(fields); i++\<close>, started at \<open>i\<close>: each field is
  trimmed in place and handed to \<^verbatim>\<open>t.checkers[i]\<close>. Indexing \<open>checkers\<close> beyond its
  length and calling a nil entry panic.\<close>

function checkFields ::
  "(string \<Rightarrow> bool) option list \<Rightarrow> nat \<Rightarrow> string list \<Rightarrow> string list outcome" where
  "checkFields cs i flds =
     (if i < length flds then
        (let flds = flds[i := TrimSpace (flds ! i)] in
         if length cs \<le> i then Panicked (IndexOutOfRange i (length cs))
         else case cs ! i of
                None \<Rightarrow> Panicked NilFunctionCall
              | Some check \<Rightarrow>
                  if \<not> check (flds ! i) then Failed (ColumnValidationError (i + 1) (flds ! i))
                  else checkFields cs (i + 1) flds)
      else Returned flds)"
  by pat_completeness auto
termination
  by (relation "measure (\<lambda>(cs, i, flds). length flds - i)") auto

text \<open>The method returns the \<^verbatim>\<open>Data\<close> value or the error, and the receiver, whose
  \<open>lastTime\<close> it sets on success.\<close>

definition ValidateLine :: "Tsdata \<Rightarrow> string \<Rightarrow> Data outcome \<times> Tsdata" where
  "ValidateLine t line =
     (let flds = Split line Delim in
      if length flds < 2 then (Failed (TooFewColumns (length flds)), t)
      else if length flds \<noteq> length (Headers t)
      then (Failed (ColumnCountMismatch (length flds) (length (Headers t))), t)
      else
        let flds = flds[0 := TrimSpace (flds ! 0)] in
        case parseRFC3339 (flds ! 0) of
          None \<Rightarrow> (Failed (InvalidTimestamp (flds ! 0)), t)
        | Some tline \<Rightarrow>
            (case checkFields (checkers t) 1 flds of
               Returned flds \<Rightarrow> (Returned \<lparr>Fields = flds, Time = tline\<rparr>, t\<lparr>lastTime := tline\<rparr>)
             | Failed e \<Rightarrow> (Failed e, t)
             | Panicked p \<Rightarrow> (Panicked p, t)))"
subsection \<open>Values for the evaluated examples\<close>

text \<open>
  The metadata values are those of the repository's tests (\<^verbatim>\<open>floatFields\<close>,
  \<^verbatim>\<open>categoryFields\<close>, \<^verbatim>\<open>textFields\<close> of \<^verbatim>\<open>TestTsdata_ValidateLine\<close>); \<open>zeroTime\<close>
  is Go's zero \<^verbatim>\<open>time.Time\<close>. The examples need an instance of the parameter \<open>pf\<close>:
  \<open>exampleParseFloat\<close> accepts, of the strings that occur in them, the one that
  \<^verbatim>\<open>ParseFloat\<close> accepts. It is used in evaluated examples only.
\<close>

definition zeroTime :: time_Time where
  "zeroTime = \<lparr>year = 1, month = 1, day = 1, hour = 0, minute = 0, second = 0,
                nanosecond = 0, zone = None\<rparr>"

definition exampleParseFloat :: "string \<Rightarrow> bool" where
  "exampleParseFloat s = (s = ''6.0'')"

definition floatFields :: Tsdata where
  "floatFields =
     \<lparr>checkers = [Some checkTime, Some (checkFloat exampleParseFloat)],
      lastTime = zeroTime,
      FileType = ''fileType'', Project = ''project'', FileDescription = ''file description'',
      Comments = [''ISO8601 timestamp'', ''NA''],
      Types = [''time'', ''float''], Units = [''NA'', ''NA''], Headers = [''time'', ''col1'']\<rparr>"

definition categoryFields :: Tsdata where
  "categoryFields =
     \<lparr>checkers = [Some checkTime, Some checkCategory],
      lastTime = zeroTime,
      FileType = ''fileType'', Project = ''project'', FileDescription = ''file description'',
      Comments = [''ISO8601 timestamp'', ''NA''],
      Types = [''time'', ''category''], Units = [''NA'', ''NA''], Headers = [''time'', ''col1'']\<rparr>"

definition textFields :: Tsdata where
  "textFields =
     \<lparr>checkers = [Some checkTime, Some checkText],
      lastTime = zeroTime,
      FileType = ''fileType'', Project = ''project'', FileDescription = ''file description'',
      Comments = [''ISO8601 timestamp'', ''NA''],
      Types = [''time'', ''text''], Units = [''NA'', ''NA''], Headers = [''time'', ''col1'']\<rparr>"

definition exampleLine :: string where
  "exampleLine = ''2017-05-06T19:52:57.601Z'' @ [CHR 0x09] @ ''6.0''"

definition exampleData :: Data where
  "exampleData =
     \<lparr>Fields = [''2017-05-06T19:52:57.601Z'', ''6.0''],
      Time = \<lparr>year = 2017, month = 5, day = 6, hour = 19, minute = 52, second = 57,
               nanosecond = 601000000, zone = None\<rparr>\<rparr>"

text \<open>The line of \<open>exampleLine\<close> with white space around both fields.\<close>

definition paddedLine :: string where
  "paddedLine = ''  2017-05-06T19:52:57.601Z '' @ [CHR 0x09] @ '' 6.0  ''"

definition emptyFieldLine :: string where
  "emptyFieldLine = ''2017-05-06T19:52:57.601Z'' @ [CHR 0x09]"

definition emptyTsdata :: Tsdata where
  "emptyTsdata =
     \<lparr>checkers = [], lastTime = zeroTime, FileType = [], Project = [], FileDescription = [],
      Comments = [], Types = [], Units = [], Headers = []\<rparr>"

definition exampleHeader :: string where
  "exampleHeader =
     ''fileType  '' @ [CHR 0x0A] @ ''project   '' @ [CHR 0x0A] @
     ''file description   '' @ [CHR 0x0A] @ [CHR 0x0A] @
     ''time  '' @ [CHR 0x09] @ ''  float  '' @ [CHR 0x0A] @
     ''NA'' @ [CHR 0x09] @ ''NA'' @ [CHR 0x0A] @
     ''time  '' @ [CHR 0x09] @ ''  col1  ''"

definition oneColumn :: Tsdata where
  "oneColumn =
     \<lparr>checkers = [Some checkTime], lastTime = zeroTime,
      FileType = [], Project = ''project'', FileDescription = ''file description'',
      Comments = [''ISO8601 timestamp''], Types = [''time''], Units = [''NA''],
      Headers = [''time'']\<rparr>"

text \<open>Metadata and header texts for the examples of header parsing: two valid metadata
  values whose \<open>FileType\<close> holds a tab and a newline, the metadata of \<open>floatFields\<close>
  without comments, the six-line header of the specification's Example 1, and malformed
  headers of \<^verbatim>\<open>TestTsdata_ParseHeader\<close>.\<close>

definition tabInFileType :: Tsdata where
  "tabInFileType = floatFields\<lparr>FileType := ''file'' @ [CHR 0x09] @ ''Type''\<rparr>"

definition newlineInFileType :: Tsdata where
  "newlineInFileType = floatFields\<lparr>FileType := ''file'' @ [CHR 0x0A] @ ''Type''\<rparr>"

definition noComments :: Tsdata where
  "noComments = floatFields\<lparr>Comments := []\<rparr>"







subsection \<open>The metadata checks as the specification lists them\<close>

text \<open>
  Section 4.2 of the specification lists twelve checks, to be applied in order, stopping at
  the first that fails. The definitions \<open>spec_check1\<close> to \<open>spec_check12\<close> follow that list
  sentence by sentence, each yielding the error of its rule, with the 1-based number of the
  first offending column where the rule is about columns; \<open>spec_firstFailure\<close> applies a
  list of checks in order. They are written from the specification, to be compared with
  \<open>ValidateMetadata\<close>, which is written from the source.
\<close>

text \<open>The recognized type tags of section 3.\<close>

definition spec_recognized :: "string \<Rightarrow> bool" where
  "spec_recognized ty = (ty \<in> set [''time'', ''float'', ''integer'', ''text'', ''category'', ''boolean''])"

text \<open>The 1-based number of the first entry that is \<open>bad\<close>.\<close>

definition spec_firstColumn :: "(string \<Rightarrow> bool) \<Rightarrow> string list \<Rightarrow> nat" where
  "spec_firstColumn bad xs = length (takeWhile (\<lambda>x. \<not> bad x) xs) + 1"

text \<open>1. \<^verbatim>\<open>fileType\<close> non-empty, else \<^verbatim>\<open>MissingFileType\<close>.\<close>

definition spec_check1 :: "Tsdata \<Rightarrow> error option" where
  "spec_check1 m = (if FileType m \<noteq> [] then None else Some MissingFileType)"

text \<open>2. \<^verbatim>\<open>project\<close> non-empty, else \<^verbatim>\<open>MissingProject\<close>.\<close>

definition spec_check2 :: "Tsdata \<Rightarrow> error option" where
  "spec_check2 m = (if Project m \<noteq> [] then None else Some MissingProject)"

text \<open>3. If \<^verbatim>\<open>comments\<close> non-empty, every entry non-empty, else \<^verbatim>\<open>EmptyComment(column)\<close>.\<close>

definition spec_check3 :: "Tsdata \<Rightarrow> error option" where
  "spec_check3 m =
     (if Comments m \<noteq> [] \<and> list_ex (\<lambda>c. c = []) (Comments m)
      then Some (EmptyComment (spec_firstColumn (\<lambda>c. c = []) (Comments m))) else None)"

text \<open>4. \<^verbatim>\<open>types\<close> non-empty, else \<^verbatim>\<open>MissingTypes\<close>.\<close>

definition spec_check4 :: "Tsdata \<Rightarrow> error option" where
  "spec_check4 m = (if Types m \<noteq> [] then None else Some MissingTypes)"

text \<open>5. If \<^verbatim>\<open>comments\<close> non-empty, \<^verbatim>\<open>len(comments) == len(types)\<close>, else
  \<^verbatim>\<open>CommentCountMismatch\<close>.\<close>

definition spec_check5 :: "Tsdata \<Rightarrow> error option" where
  "spec_check5 m =
     (if Comments m \<noteq> [] \<and> length (Comments m) \<noteq> length (Types m)
      then Some CommentCountMismatch else None)"

text \<open>6. Every entry of \<^verbatim>\<open>types\<close> is a recognized tag, else \<^verbatim>\<open>UnknownType(value, column)\<close>.\<close>

definition spec_check6 :: "Tsdata \<Rightarrow> error option" where
  "spec_check6 m =
     (if list_all spec_recognized (Types m) then None
      else Some (UnknownType (Types m ! (spec_firstColumn (\<lambda>ty. \<not> spec_recognized ty) (Types m) - 1))
                   (spec_firstColumn (\<lambda>ty. \<not> spec_recognized ty) (Types m))))"

text \<open>7. \<^verbatim>\<open>units\<close> non-empty and \<^verbatim>\<open>len(units) == len(types)\<close>, else \<^verbatim>\<open>MissingUnits\<close> /
  \<^verbatim>\<open>UnitCountMismatch\<close>.\<close>

definition spec_check7 :: "Tsdata \<Rightarrow> error option" where
  "spec_check7 m =
     (if Units m = [] then Some MissingUnits
      else if length (Units m) \<noteq> length (Types m) then Some UnitCountMismatch else None)"

text \<open>8. Every entry of \<^verbatim>\<open>units\<close> non-empty, else \<^verbatim>\<open>EmptyUnit(column)\<close>.\<close>

definition spec_check8 :: "Tsdata \<Rightarrow> error option" where
  "spec_check8 m =
     (if list_ex (\<lambda>u. u = []) (Units m)
      then Some (EmptyUnit (spec_firstColumn (\<lambda>u. u = []) (Units m))) else None)"

text \<open>9. \<^verbatim>\<open>headers\<close> non-empty and \<^verbatim>\<open>len(headers) == len(types)\<close>, else
  \<^verbatim>\<open>MissingHeaders\<close> / \<^verbatim>\<open>HeaderCountMismatch\<close>.\<close>

definition spec_check9 :: "Tsdata \<Rightarrow> error option" where
  "spec_check9 m =
     (if Headers m = [] then Some MissingHeaders
      else if length (Headers m) \<noteq> length (Types m) then Some HeaderCountMismatch else None)"

text \<open>10. \<^verbatim>\<open>headers[0] == "time"\<close>, else \<^verbatim>\<open>FirstColumnNotTime\<close>.\<close>

definition spec_check10 :: "Tsdata \<Rightarrow> error option" where
  "spec_check10 m = (if take 1 (Headers m) = [''time''] then None else Some FirstColumnNotTime)"

text \<open>11. Every entry of \<^verbatim>\<open>headers\<close> non-empty, else \<^verbatim>\<open>EmptyHeader(column)\<close>.\<close>

definition spec_check11 :: "Tsdata \<Rightarrow> error option" where
  "spec_check11 m =
     (if list_ex (\<lambda>h. h = []) (Headers m)
      then Some (EmptyHeader (spec_firstColumn (\<lambda>h. h = []) (Headers m))) else None)"

text \<open>12. \<^verbatim>\<open>len(types) >= 2\<close>, else \<^verbatim>\<open>NoDataColumns\<close>.\<close>

definition spec_check12 :: "Tsdata \<Rightarrow> error option" where
  "spec_check12 m = (if 2 \<le> length (Types m) then None else Some NoDataColumns)"

text \<open>The twelve checks in the order of the section.\<close>

definition spec_checks :: "(Tsdata \<Rightarrow> error option) list" where
  "spec_checks =
     [spec_check1, spec_check2, spec_check3, spec_check4, spec_check5, spec_check6,
      spec_check7, spec_check8, spec_check9, spec_check10, spec_check11, spec_check12]"

text \<open>In order, short-circuiting on the first failure.\<close>

fun spec_firstFailure ::
  "(Tsdata \<Rightarrow> error option) list \<Rightarrow> Tsdata \<Rightarrow> error option" where
  "spec_firstFailure [] m = None"
| "spec_firstFailure (c # cs) m =
     (case c m of Some e \<Rightarrow> Some e | None \<Rightarrow> spec_firstFailure cs m)"

subsection \<open>Metadata that survives rendering and parsing\<close>

text \<open>
  \<open>Header\<close> writes the strings of the metadata as they are, and \<open>ParseHeader\<close> cuts lines at
  newlines, cells at tabs, and trims. A line-valued field (\<open>FileType\<close>, \<open>Project\<close>,
  \<open>FileDescription\<close>) is \<open>plainLine\<close> when it has no tab, no newline and no trailing space,
  tab or carriage return; a cell is \<open>plainCell\<close> when it has no tab, no newline and
  \<open>TrimSpace\<close> leaves it as it is.
\<close>

definition plainLine :: "string \<Rightarrow> bool" where
  "plainLine s =
     (Delim \<notin> set s \<and> newline \<notin> set s \<and> TrimRight s [CHR 0x20, CHR 0x09, CHR 0x0D] = s)"

definition plainCell :: "string \<Rightarrow> bool" where
  "plainCell s = (Delim \<notin> set s \<and> newline \<notin> set s \<and> TrimSpace s = s)"

definition roundTrippable :: "Tsdata \<Rightarrow> bool" where
  "roundTrippable m =
     (plainLine (FileType m) \<and> plainLine (Project m) \<and> plainLine (FileDescription m) \<and>
      list_all plainCell (Comments m) \<and> list_all plainCell (Units m) \<and>
      list_all plainCell (Headers m))"

section \<open>Properties\<close>

subsection \<open>The field loop\<close>

declare checkFields.simps [simp del]

lemma Split_nonempty: "Split s sep \<noteq> []"
  by (induction s) (auto split: list.splits)

lemma checkFields_Returned:
  "checkFields cs i flds = Returned r \<Longrightarrow> i \<le> length flds \<Longrightarrow>
     r = take i flds @ map TrimSpace (drop i flds)"
proof (induction cs i flds rule: checkFields.induct)
  case (1 cs i flds)
  show ?case
  proof (cases "i < length flds")
    case False
    with "1.prems" show ?thesis by (simp add: checkFields.simps [of cs i flds])
  next
    case True
    let ?f = "flds[i := TrimSpace (flds ! i)]"
    from True "1.prems"(1) obtain check where
      inr: "\<not> length cs \<le> i" and c: "cs ! i = Some check" and ok: "check (?f ! i)"
      and rec: "checkFields cs (i + 1) ?f = Returned r"
      by (auto simp: checkFields.simps [of cs i flds] Let_def split: if_splits option.splits)
    have "r = take (i + 1) ?f @ map TrimSpace (drop (i + 1) ?f)"
      using "1.IH" [OF True refl inr c _ rec] ok True by simp
    also have "\<dots> = take i flds @ [TrimSpace (flds ! i)] @ map TrimSpace (drop (Suc i) flds)"
      using True by (simp add: take_Suc_conv_app_nth)
    also have "\<dots> = take i flds @ map TrimSpace (drop i flds)"
      using True by (simp add: Cons_nth_drop_Suc [symmetric])
    finally show ?thesis .
  qed
qed

lemma checkFields_Returned_pass:
  "checkFields cs i flds = Returned r \<Longrightarrow> i \<le> k \<Longrightarrow> k < length flds \<Longrightarrow>
     k < length cs \<and> (\<exists>c. cs ! k = Some c \<and> c (TrimSpace (flds ! k)))"
proof (induction cs i flds rule: checkFields.induct)
  case (1 cs i flds)
  let ?f = "flds[i := TrimSpace (flds ! i)]"
  from "1.prems" have True: "i < length flds" by simp
  from True "1.prems"(1) obtain check where
    inr: "\<not> length cs \<le> i" and c: "cs ! i = Some check" and ok: "check (?f ! i)"
    and rec: "checkFields cs (i + 1) ?f = Returned r"
    by (auto simp: checkFields.simps [of cs i flds] Let_def split: if_splits option.splits)
  show ?case
  proof (cases "k = i")
    case True
    with inr c ok \<open>i < length flds\<close> show ?thesis by simp
  next
    case False
    with "1.prems" have lt: "i + 1 \<le> k" "k < length ?f" by simp_all
    from ok have "\<not> \<not> check (?f ! i)" by simp
    from "1.IH" [OF True refl inr c this rec lt] False show ?thesis by simp
  qed
qed

lemma checkFields_pass:
  assumes "\<forall>k. i \<le> k \<and> k < length flds \<longrightarrow>
             k < length cs \<and> (\<exists>c. cs ! k = Some c \<and> c (TrimSpace (flds ! k)))"
  shows "checkFields cs i flds = Returned (take i flds @ map TrimSpace (drop i flds))"
  using assms
proof (induction cs i flds rule: checkFields.induct)
  case (1 cs i flds)
  show ?case
  proof (cases "i < length flds")
    case False
    then show ?thesis by (simp add: checkFields.simps [of cs i flds])
  next
    case True
    let ?f = "flds[i := TrimSpace (flds ! i)]"
    from "1.prems" True have "i < length cs \<and> (\<exists>c. cs ! i = Some c \<and> c (TrimSpace (flds ! i)))"
      by simp
    then obtain ci where ic: "\<not> length cs \<le> i" and ci: "cs ! i = Some ci"
      "ci (TrimSpace (flds ! i))" by auto
    have ok: "\<not> \<not> ci (?f ! i)" using ci True by simp
    have "checkFields cs (i + 1) ?f
            = Returned (take (i + 1) ?f @ map TrimSpace (drop (i + 1) ?f))"
    proof (rule "1.IH" [OF True refl ic ci(1) ok])
      show "\<forall>k. i + 1 \<le> k \<and> k < length ?f \<longrightarrow>
              k < length cs \<and> (\<exists>c. cs ! k = Some c \<and> c (TrimSpace (?f ! k)))"
        using "1.prems" by auto
    qed
    also have "take (i + 1) ?f @ map TrimSpace (drop (i + 1) ?f)
                 = take i flds @ [TrimSpace (flds ! i)] @ map TrimSpace (drop (Suc i) flds)"
      using True by (simp add: take_Suc_conv_app_nth)
    also have "\<dots> = take i flds @ map TrimSpace (drop i flds)"
      using True by (simp add: Cons_nth_drop_Suc [symmetric])
    finally show ?thesis using True ic ci
      by (simp add: checkFields.simps [of cs i flds] Let_def)
  qed
qed

lemma checkFields_Failed:
  "checkFields cs i flds = Failed e \<Longrightarrow>
     \<exists>k c. i \<le> k \<and> k < length flds \<and> k < length cs \<and> cs ! k = Some c \<and>
           \<not> c (TrimSpace (flds ! k)) \<and> e = ColumnValidationError (k + 1) (TrimSpace (flds ! k))"
proof (induction cs i flds rule: checkFields.induct)
  case (1 cs i flds)
  show ?case
  proof (cases "i < length flds")
    case False
    with "1.prems" show ?thesis by (simp add: checkFields.simps [of cs i flds])
  next
    case True
    let ?f = "flds[i := TrimSpace (flds ! i)]"
    from True "1.prems" obtain check where
      inr: "\<not> length cs \<le> i" and c: "cs ! i = Some check"
      and alt: "(\<not> check (?f ! i) \<and> e = ColumnValidationError (i + 1) (?f ! i)) \<or>
                (check (?f ! i) \<and> checkFields cs (i + 1) ?f = Failed e)"
      by (auto simp: checkFields.simps [of cs i flds] Let_def split: if_splits option.splits)
    from alt show ?thesis
    proof
      assume "\<not> check (?f ! i) \<and> e = ColumnValidationError (i + 1) (?f ! i)"
      with True inr c show ?thesis by (intro exI [of _ i] exI [of _ check]) simp
    next
      assume h: "check (?f ! i) \<and> checkFields cs (i + 1) ?f = Failed e"
      then have "\<not> \<not> check (?f ! i)" by simp
      from "1.IH" [OF True refl inr c this] h
      obtain k c' where k: "i + 1 \<le> k" "k < length ?f" "k < length cs" "cs ! k = Some c'"
        "\<not> c' (TrimSpace (?f ! k))" "e = ColumnValidationError (k + 1) (TrimSpace (?f ! k))"
        by blast
      then have "?f ! k = flds ! k" by simp
      with k show ?thesis by (intro exI [of _ k] exI [of _ c']) simp
    qed
  qed
qed

lemma checkFields_Panicked:
  "checkFields cs i flds = Panicked p \<Longrightarrow>
     \<exists>k. i \<le> k \<and> k < length flds \<and> (length cs \<le> k \<or> cs ! k = None)"
proof (induction cs i flds rule: checkFields.induct)
  case (1 cs i flds)
  show ?case
  proof (cases "i < length flds")
    case False
    with "1.prems" show ?thesis by (simp add: checkFields.simps [of cs i flds])
  next
    case True
    let ?f = "flds[i := TrimSpace (flds ! i)]"
    show ?thesis
    proof (cases "length cs \<le> i \<or> cs ! i = None")
      case True
      with \<open>i < length flds\<close> show ?thesis by (intro exI [of _ i]) auto
    next
      case False
      then obtain check where inr: "\<not> length cs \<le> i" and c: "cs ! i = Some check" by auto
      with True "1.prems" have ok: "\<not> \<not> check (?f ! i)" and rec: "checkFields cs (i + 1) ?f = Panicked p"
        by (auto simp: checkFields.simps [of cs i flds] Let_def split: if_splits)
      from "1.IH" [OF True refl inr c ok rec]
      obtain k where "i + 1 \<le> k" "k < length ?f" "length cs \<le> k \<or> cs ! k = None" by blast
      then show ?thesis by (intro exI [of _ k]) auto
    qed
  qed
qed

lemma checkFields_first_fail:
  assumes "i \<le> k" "k < length flds" "k < length cs"
    and "\<forall>j. i \<le> j \<and> j < k \<longrightarrow> (\<exists>c. cs ! j = Some c \<and> c (TrimSpace (flds ! j)))"
    and "cs ! k = Some c" "\<not> c (TrimSpace (flds ! k))"
  shows "checkFields cs i flds = Failed (ColumnValidationError (k + 1) (TrimSpace (flds ! k)))"
  using assms
proof (induction cs i flds rule: checkFields.induct)
  case (1 cs i flds)
  let ?f = "flds[i := TrimSpace (flds ! i)]"
  have il: "i < length flds" using "1.prems" by simp
  have ic: "\<not> length cs \<le> i" using "1.prems" by simp
  show ?case
  proof (cases "i = k")
    case True
    with "1.prems" il ic show ?thesis
      by (simp add: checkFields.simps [of cs k flds] Let_def)
  next
    case False
    with "1.prems" have lt: "i < k" by simp
    with "1.prems"(4) obtain ci where ci: "cs ! i = Some ci" "ci (TrimSpace (flds ! i))" by auto
    have ok: "\<not> \<not> ci (?f ! i)" using ci il by simp
    have "checkFields cs (i + 1) ?f = Failed (ColumnValidationError (k + 1) (TrimSpace (?f ! k)))"
    proof (rule "1.IH" [OF il refl ic ci(1) ok])
      show "i + 1 \<le> k" using lt by simp
      show "k < length ?f" using "1.prems" by simp
      show "k < length cs" by fact
      show "\<forall>j. i + 1 \<le> j \<and> j < k \<longrightarrow> (\<exists>c. cs ! j = Some c \<and> c (TrimSpace (?f ! j)))"
        using "1.prems"(4) by auto
      show "cs ! k = Some c" by fact
      show "\<not> c (TrimSpace (?f ! k))" using "1.prems"(6) lt by simp
    qed
    moreover have "?f ! k = flds ! k" using lt by simp
    ultimately show ?thesis using il ic ci
      by (simp add: checkFields.simps [of cs i flds] Let_def)
  qed
qed
subsection \<open>The time checker\<close>

lemma checkTime_iff: "checkTime s = (parseRFC3339 s \<noteq> None \<or> s = NA)"
  by (auto simp: checkTime_def split: option.splits)

lemma skip_single: "skip v [p] = Some v' \<Longrightarrow> v = p # v'"
  by (cases v) (auto split: if_splits)

lemma getnum_fixed: "getnum v True = Some (n, v') \<Longrightarrow> \<exists>a b. v = a # b # v'"
proof -
  assume a: "getnum v True = Some (n, v')"
  then have "isDigit v 0" "isDigit v 1" "v' = drop 2 v"
    by (auto simp: getnum_def split: if_splits)
  then have "2 \<le> length v" by (simp add: isDigit_def)
  then obtain a b r where "v = a # b # r"
    by (cases v; cases "tl v") auto
  with \<open>v' = drop 2 v\<close> show ?thesis by simp
qed

lemma parseDate_length:
  assumes "parseDate s = Some (ymd, v)"
  shows "s = take 10 s @ v \<and> length (take 10 s) = 10"
proof -
  from assms obtain v1 mo v2 v3 d where
    len: "\<not> length s < 4" and
    s1: "skip (drop 4 s) ''-'' = Some v1" and g1: "getnum v1 True = Some (mo, v2)" and
    s2: "skip v2 ''-'' = Some v3" and g2: "getnum v3 True = Some (d, v)"
    unfolding parseDate_def
    by (auto simp: Option.bind_eq_Some_conv split: if_splits)
  from skip_single [OF s1] have d4: "drop 4 s = CHR ''-'' # v1" .
  from getnum_fixed [OF g1] obtain a b where v1: "v1 = a # b # v2" by blast
  from skip_single [OF s2] have v2: "v2 = CHR ''-'' # v3" .
  from getnum_fixed [OF g2] obtain c e where v3: "v3 = c # e # v" by blast
  have dr: "drop 4 s = [CHR ''-'', a, b, CHR ''-'', c, e] @ v"
    using d4 v1 v2 v3 by simp
  have "s = take 4 s @ drop 4 s" by simp
  with dr have s: "s = (take 4 s @ [CHR ''-'', a, b, CHR ''-'', c, e]) @ v" by simp
  have l: "length (take 4 s @ [CHR ''-'', a, b, CHR ''-'', c, e]) = 10" using len by simp
  from s l have "take 10 s = take 4 s @ [CHR ''-'', a, b, CHR ''-'', c, e]"
    by (metis append_eq_conv_conj)
  with s l show ?thesis by simp
qed

lemma parseRFC3339_letter_T:
  assumes "parseRFC3339 s = Some t"
  shows "10 < length s \<and> s ! 10 = CHR ''T''"
proof -
  from assms obtain ymd v v' where d: "parseDate s = Some (ymd, v)" and k: "skip v ''T'' = Some v'"
    unfolding parseRFC3339_def
    by (auto simp: Option.bind_eq_Some_conv)
  from skip_single [OF k] have v: "v = CHR ''T'' # v'" .
  from parseDate_length [OF d] have s: "s = take 10 s @ v" and l: "length (take 10 s) = 10"
    by simp_all
  have "s ! 10 = (take 10 s @ v) ! (length (take 10 s) + 0)" using s l by simp
  also have "\<dots> = v ! 0" by (rule nth_append_length_plus)
  finally have "s ! 10 = CHR ''T''" using v by simp
  moreover have "length s = 10 + length v" using s l by (metis length_append)
  ultimately show ?thesis using v by simp
qed

lemma checkTime_needs_T:
  "checkTime s \<Longrightarrow> s = NA \<or> (10 < length s \<and> s ! 10 = CHR ''T'')"
  using parseRFC3339_letter_T [of s] by (auto simp: checkTime_iff)

text \<open>
  Claim C1. \<open>checkTime\<close> accepts \<open>NA\<close> and the strings that \<^verbatim>\<open>time.Parse\<close> accepts at the
  layout \<^verbatim>\<open>time.RFC3339\<close> (lemma \<open>checkTime_iff\<close>), and that layout has the literal \<^verbatim>\<open>T\<close>
  between date and time (lemma \<open>checkTime_needs_T\<close>). So the timestamp of the repository's
  test \<^verbatim>\<open>accept RFC3339 without 'T', emit with 'T'\<close>, with a single space as the separator,
  is rejected, while the same timestamp with \<^verbatim>\<open>T\<close> is accepted: the claim's "accepting both
  \<^verbatim>\<open>T\<close> and a single space" does not hold of the code.
\<close>

theorem checkTime_space_separator:
  "\<not> checkTime ''2017-05-06 19:52:57.601Z'' \<and>
   parseRFC3339 ''2017-05-06 19:52:57.601Z'' = None \<and>
   checkTime ''2017-05-06T19:52:57.601Z'' \<and>
   checkTime NA"
  by code_simp

subsection \<open>Line validation\<close>

lemma ValidateLine_lastTime_irrelevant:
  "fst (ValidateLine (t\<lparr>lastTime := x\<rparr>) line) = fst (ValidateLine t line)"
  by (simp add: ValidateLine_def Let_def split: option.splits outcome.splits)

lemma ValidateLine_receiver:
  "snd (ValidateLine t line) = t \<or> (\<exists>x. snd (ValidateLine t line) = t\<lparr>lastTime := x\<rparr>)"
  by (auto simp: ValidateLine_def Let_def split: option.splits outcome.splits)

lemma ValidateLine_after:
  "fst (ValidateLine (snd (ValidateLine t previous)) line) = fst (ValidateLine t line)"
  using ValidateLine_receiver [of t previous]
    ValidateLine_lastTime_irrelevant [where t = t and line = line]
  by auto

text \<open>
  Claim C6. \<open>ValidateLine\<close> splits the line on the tab delimiter. When fewer than 2 fields
  result it returns the too-few-columns error; when at least 2 result but not as many as
  there are headers it returns the column-count-mismatch error. In both cases the result is
  determined by the two counts alone: no field is trimmed, parsed or handed to a checker,
  and the receiver is unchanged.
\<close>

theorem ValidateLine_column_count:
  "(length (Split line Delim) < 2 \<longrightarrow>
      ValidateLine t line = (Failed (TooFewColumns (length (Split line Delim))), t)) \<and>
   (2 \<le> length (Split line Delim) \<and> length (Split line Delim) \<noteq> length (Headers t) \<longrightarrow>
      ValidateLine t line =
        (Failed (ColumnCountMismatch (length (Split line Delim)) (length (Headers t))), t))"
  by (simp add: ValidateLine_def Let_def)

theorem ValidateLine_column_count_witness:
  "length (Split [] Delim) < 2 \<and>
   ValidateLine floatFields [] = (Failed (TooFewColumns 1), floatFields) \<and>
   2 \<le> length (Split (''a'' @ [CHR 0x09] @ ''b'' @ [CHR 0x09] @ ''c'') Delim) \<and>
   length (Split (''a'' @ [CHR 0x09] @ ''b'' @ [CHR 0x09] @ ''c'') Delim)
     \<noteq> length (Headers floatFields) \<and>
   ValidateLine floatFields (''a'' @ [CHR 0x09] @ ''b'' @ [CHR 0x09] @ ''c'') =
     (Failed (ColumnCountMismatch 3 2), floatFields)"
proof -
  have n1: "length (Split [] Delim) = 1" by code_simp
  have n3: "length (Split (''a'' @ [CHR 0x09] @ ''b'' @ [CHR 0x09] @ ''c'') Delim) = 3"
    by code_simp
  have h: "length (Headers floatFields) = 2" by code_simp
  from ValidateLine_column_count [of "[]" floatFields]
    ValidateLine_column_count [of "''a'' @ [CHR 0x09] @ ''b'' @ [CHR 0x09] @ ''c''" floatFields]
    n1 n3 h
  show ?thesis by simp
qed

text \<open>
  Claim C4. When the field count passes both count checks and the trimmed first field does
  not parse as an RFC 3339 timestamp, \<open>ValidateLine\<close> returns the invalid-timestamp error
  carrying that trimmed field. The string \<open>NA\<close> in the first column is such a field, although
  \<open>checkTime\<close> accepts \<open>NA\<close>. The method has no strict or lenient parameter: the failure
  is unconditional.
\<close>

theorem ValidateLine_invalid_timestamp:
  "(2 \<le> length (Split line Delim) \<and> length (Split line Delim) = length (Headers t) \<and>
    parseRFC3339 (TrimSpace (Split line Delim ! 0)) = None \<longrightarrow>
      ValidateLine t line = (Failed (InvalidTimestamp (TrimSpace (Split line Delim ! 0))), t)) \<and>
   (2 \<le> length (Split line Delim) \<and> length (Split line Delim) = length (Headers t) \<and>
    TrimSpace (Split line Delim ! 0) = NA \<longrightarrow>
      ValidateLine t line = (Failed (InvalidTimestamp NA), t)) \<and>
   checkTime NA"
proof -
  let ?s = "Split line Delim"
  have na: "parseRFC3339 NA = None" unfolding NA_def by code_simp
  have "checkTime NA" by (simp add: checkTime_def na)
  moreover have "ValidateLine t line = (Failed (InvalidTimestamp (TrimSpace (?s ! 0))), t)"
    if len: "2 \<le> length ?s" "length ?s = length (Headers t)"
      and p: "parseRFC3339 (TrimSpace (?s ! 0)) = None"
  proof -
    from len have "0 < length ?s" by linarith
    then have "?s[0 := TrimSpace (?s ! 0)] ! 0 = TrimSpace (?s ! 0)" by simp
    with len p show ?thesis by (simp add: ValidateLine_def Let_def)
  qed
  ultimately show ?thesis using na by metis
qed

theorem ValidateLine_invalid_timestamp_witness:
  "2 \<le> length (Split (''NA'' @ [CHR 0x09] @ ''6.0'') Delim) \<and>
   length (Split (''NA'' @ [CHR 0x09] @ ''6.0'') Delim) = length (Headers floatFields) \<and>
   TrimSpace (Split (''NA'' @ [CHR 0x09] @ ''6.0'') Delim ! 0) = NA \<and>
   parseRFC3339 (TrimSpace (Split (''NA'' @ [CHR 0x09] @ ''6.0'') Delim ! 0)) = None \<and>
   ValidateLine floatFields (''NA'' @ [CHR 0x09] @ ''6.0'')
     = (Failed (InvalidTimestamp NA), floatFields) \<and>
   checkTime NA"
proof -
  have a: "2 \<le> length (Split (''NA'' @ [CHR 0x09] @ ''6.0'') Delim)" by code_simp
  have b: "length (Split (''NA'' @ [CHR 0x09] @ ''6.0'') Delim) = length (Headers floatFields)"
    by code_simp
  have c: "TrimSpace (Split (''NA'' @ [CHR 0x09] @ ''6.0'') Delim ! 0) = NA" by code_simp
  have d: "parseRFC3339 (TrimSpace (Split (''NA'' @ [CHR 0x09] @ ''6.0'') Delim ! 0)) = None"
    by code_simp
  from ValidateLine_invalid_timestamp [of "''NA'' @ [CHR 0x09] @ ''6.0''" floatFields] a b c d
  show ?thesis by simp
qed

lemma map_TrimSpace_update:
  assumes "0 < length s"
  shows "take 1 (s[0 := TrimSpace (s ! 0)]) @ map TrimSpace (drop 1 (s[0 := TrimSpace (s ! 0)]))
           = map TrimSpace s"
  using assms by (cases s) auto

text \<open>
  Claim C7. For every metadata value \<open>t\<close> and every line that passes all checks (at least
  two fields, as many as there are headers, a first field that after trimming parses as a
  timestamp \<open>tm\<close>, and for every later column a checker that accepts the trimmed field),
  \<open>ValidateLine\<close> returns the \<open>Data\<close> value whose \<open>Fields\<close> are the tab-separated fields
  of the line, each with leading and trailing white space trimmed, in the original order,
  and whose \<open>Time\<close> is \<open>tm\<close>; it sets the receiver's \<open>lastTime\<close> to \<open>tm\<close>. Conversely,
  whenever \<open>ValidateLine\<close> returns a \<open>Data\<close> value, the line passed all of these checks,
  the \<open>Fields\<close> are the trimmed fields, the first of them is the trimmed string itself, not
  reformatted, and \<open>Time\<close> is the timestamp parsed from it.
\<close>

theorem ValidateLine_record:
  "(2 \<le> length (Split line Delim) \<and> length (Split line Delim) = length (Headers t) \<and>
    parseRFC3339 (TrimSpace (Split line Delim ! 0)) = Some tm \<and>
    (\<forall>k. 1 \<le> k \<and> k < length (Split line Delim) \<longrightarrow>
       k < length (checkers t) \<and>
       (\<exists>c. checkers t ! k = Some c \<and> c (TrimSpace (Split line Delim ! k)))) \<longrightarrow>
      ValidateLine t line =
        (Returned \<lparr>Fields = map TrimSpace (Split line Delim), Time = tm\<rparr>,
         t\<lparr>lastTime := tm\<rparr>)) \<and>
   (ValidateLine t line = (Returned d, t') \<longrightarrow>
      Fields d = map TrimSpace (Split line Delim) \<and>
      Fields d ! 0 = TrimSpace (Split line Delim ! 0) \<and>
      parseRFC3339 (Fields d ! 0) = Some (Time d) \<and>
      length (Fields d) = length (Headers t) \<and>
      t' = t\<lparr>lastTime := Time d\<rparr> \<and>
      2 \<le> length (Split line Delim) \<and>
      (\<forall>k. 1 \<le> k \<and> k < length (Split line Delim) \<longrightarrow>
         k < length (checkers t) \<and>
         (\<exists>c. checkers t ! k = Some c \<and> c (TrimSpace (Split line Delim ! k)))))"
proof (rule conjI; rule impI)
  let ?s = "Split line Delim"
  let ?f = "?s[0 := TrimSpace (?s ! 0)]"
  assume a: "2 \<le> length ?s \<and> length ?s = length (Headers t) \<and>
    parseRFC3339 (TrimSpace (?s ! 0)) = Some tm \<and>
    (\<forall>k. 1 \<le> k \<and> k < length ?s \<longrightarrow>
       k < length (checkers t) \<and> (\<exists>c. checkers t ! k = Some c \<and> c (TrimSpace (?s ! k))))"
  then have pos: "0 < length ?s" by linarith
  have f0: "?f ! 0 = TrimSpace (?s ! 0)" using pos by simp
  have "\<forall>k. 1 \<le> k \<and> k < length ?f \<longrightarrow>
          k < length (checkers t) \<and> (\<exists>c. checkers t ! k = Some c \<and> c (TrimSpace (?f ! k)))"
    using a by auto
  from checkFields_pass [OF this]
  have "checkFields (checkers t) 1 ?f = Returned (map TrimSpace ?s)"
    by (simp only: map_TrimSpace_update [OF pos])
  with a f0 show "ValidateLine t line =
        (Returned \<lparr>Fields = map TrimSpace ?s, Time = tm\<rparr>, t\<lparr>lastTime := tm\<rparr>)"
    by (simp add: ValidateLine_def Let_def)
next
  let ?s = "Split line Delim"
  let ?f = "?s[0 := TrimSpace (?s ! 0)]"
  assume run: "ValidateLine t line = (Returned d, t')"
  then have len: "2 \<le> length ?s" "length ?s = length (Headers t)"
    by (auto simp: ValidateLine_def Let_def split: if_splits)
  with run obtain tline r where
    p: "parseRFC3339 (?f ! 0) = Some tline" and c: "checkFields (checkers t) 1 ?f = Returned r"
    and d: "d = \<lparr>Fields = r, Time = tline\<rparr>" and t': "t' = t\<lparr>lastTime := tline\<rparr>"
    by (auto simp: ValidateLine_def Let_def split: if_splits option.splits outcome.splits)
  from len have pos: "0 < length ?s" by linarith
  from checkFields_Returned [OF c] len
  have "r = take 1 ?f @ map TrimSpace (drop 1 ?f)" by simp
  then have r: "r = map TrimSpace ?s" by (simp only: map_TrimSpace_update [OF pos])
  have f0: "?f ! 0 = TrimSpace (?s ! 0)" using pos by simp
  have r0: "r ! 0 = TrimSpace (?s ! 0)" using pos r by simp
  have pass: "k < length (checkers t) \<and>
              (\<exists>c. checkers t ! k = Some c \<and> c (TrimSpace (?s ! k)))"
    if "1 \<le> k" "k < length ?s" for k
  proof -
    from that have "k < length ?f" by simp
    from checkFields_Returned_pass [OF c that(1) this] that show ?thesis by simp
  qed
  show "Fields d = map TrimSpace ?s \<and>
      Fields d ! 0 = TrimSpace (?s ! 0) \<and>
      parseRFC3339 (Fields d ! 0) = Some (Time d) \<and>
      length (Fields d) = length (Headers t) \<and>
      t' = t\<lparr>lastTime := Time d\<rparr> \<and>
      2 \<le> length ?s \<and>
      (\<forall>k. 1 \<le> k \<and> k < length ?s \<longrightarrow>
         k < length (checkers t) \<and> (\<exists>c. checkers t ! k = Some c \<and> c (TrimSpace (?s ! k))))"
    using r r0 p f0 d t' len pass by simp
qed

theorem ValidateLine_record_witness:
  "2 \<le> length (Split paddedLine Delim) \<and>
   length (Split paddedLine Delim) = length (Headers floatFields) \<and>
   parseRFC3339 (TrimSpace (Split paddedLine Delim ! 0)) = Some (Time exampleData) \<and>
   checkers floatFields ! 1 = Some (checkFloat exampleParseFloat) \<and>
   checkFloat exampleParseFloat (TrimSpace (Split paddedLine Delim ! 1)) \<and>
   map TrimSpace (Split paddedLine Delim) = [''2017-05-06T19:52:57.601Z'', ''6.0''] \<and>
   map TrimSpace (Split paddedLine Delim) \<noteq> Split paddedLine Delim \<and>
   ValidateLine floatFields paddedLine
     = (Returned exampleData, floatFields\<lparr>lastTime := Time exampleData\<rparr>) \<and>
   Fields exampleData = map TrimSpace (Split paddedLine Delim) \<and>
   Fields exampleData ! 0 = TrimSpace (Split paddedLine Delim ! 0) \<and>
   parseRFC3339 (Fields exampleData ! 0) = Some (Time exampleData) \<and>
   length (Fields exampleData) = length (Headers floatFields)"
proof -
  let ?s = "Split paddedLine Delim"
  let ?tm = "Time exampleData"
  have n: "length ?s = 2" by code_simp
  have h: "length (Headers floatFields) = 2" by code_simp
  have p: "parseRFC3339 (TrimSpace (?s ! 0)) = Some ?tm" by code_simp
  have c: "checkers floatFields ! 1 = Some (checkFloat exampleParseFloat)"
    by (simp add: floatFields_def)
  have v: "checkFloat exampleParseFloat (TrimSpace (?s ! 1))" by code_simp
  have m: "map TrimSpace ?s = [''2017-05-06T19:52:57.601Z'', ''6.0'']" by code_simp
  have ne: "map TrimSpace ?s \<noteq> ?s" by code_simp
  have lc: "length (checkers floatFields) = 2" by (simp add: floatFields_def)
  have pass: "\<forall>k. 1 \<le> k \<and> k < length ?s \<longrightarrow>
                k < length (checkers floatFields) \<and>
                (\<exists>c. checkers floatFields ! k = Some c \<and> c (TrimSpace (?s ! k)))"
  proof (intro allI impI)
    fix k :: nat
    assume "1 \<le> k \<and> k < length ?s"
    with n have "k = 1" by simp
    with c v lc show "k < length (checkers floatFields) \<and>
                (\<exists>c. checkers floatFields ! k = Some c \<and> c (TrimSpace (?s ! k)))"
      by simp
  qed
  have d: "\<lparr>Fields = map TrimSpace ?s, Time = ?tm\<rparr> = exampleData"
    by (simp add: m exampleData_def)
  note inst = ValidateLine_record [where t = floatFields and line = paddedLine and tm = ?tm
      and d = exampleData and t' = "floatFields\<lparr>lastTime := ?tm\<rparr>"]
  from inst n h p pass
  have "ValidateLine floatFields paddedLine
          = (Returned \<lparr>Fields = map TrimSpace ?s, Time = ?tm\<rparr>, floatFields\<lparr>lastTime := ?tm\<rparr>)"
    by simp
  then have run: "ValidateLine floatFields paddedLine
                    = (Returned exampleData, floatFields\<lparr>lastTime := ?tm\<rparr>)"
    by (simp only: d)
  from inst run
  have "Fields exampleData = map TrimSpace ?s \<and>
        Fields exampleData ! 0 = TrimSpace (?s ! 0) \<and>
        parseRFC3339 (Fields exampleData ! 0) = Some ?tm \<and>
        length (Fields exampleData) = length (Headers floatFields)"
    by blast
  moreover have "2 \<le> length ?s" using n by simp
  moreover have "length ?s = length (Headers floatFields)" using n h by simp
  ultimately show ?thesis using p c v m ne run by blast
qed

text \<open>
  Claim C9. Validating a line a second time, on the receiver as the first validation left
  it, gives the same result (the same \<open>Data\<close> value, the same error or the same panic).
  More generally the result depends neither on the line validated before nor on the
  receiver's \<open>lastTime\<close>: no order between the timestamps of successive lines is enforced.
\<close>

theorem ValidateLine_idempotent:
  "fst (ValidateLine (snd (ValidateLine t line)) line) = fst (ValidateLine t line) \<and>
   fst (ValidateLine (snd (ValidateLine t previous)) line) = fst (ValidateLine t line) \<and>
   fst (ValidateLine (t\<lparr>lastTime := x\<rparr>) line) = fst (ValidateLine t line)"
  using ValidateLine_after [of t line line] ValidateLine_after [of t previous line]
    ValidateLine_lastTime_irrelevant [where t = t and line = line and x = x]
  by simp

theorem ValidateLine_idempotent_witness:
  "fst (ValidateLine (snd (ValidateLine floatFields exampleLine)) exampleLine)
     = Returned exampleData \<and>
   fst (ValidateLine floatFields exampleLine) = Returned exampleData"
proof -
  have ok: "fst (ValidateLine floatFields exampleLine) = Returned exampleData" by code_simp
  from ValidateLine_idempotent [where t = floatFields and line = exampleLine] ok
  show ?thesis by simp
qed

text \<open>
  Claim C8. \<open>checkCategory\<close> accepts exactly the non-empty strings, \<open>checkText\<close> accepts
  every string, and these are the predicates of the tags \<open>category\<close> and \<open>text\<close>. Hence,
  on a line whose counts and timestamp pass and whose columns before column \<open>i\<close> pass, a
  field of column \<open>i\<close> that is empty after trimming makes \<open>ValidateLine\<close> return the column
  validation error for that column when its checker is \<open>checkCategory\<close>; when its checker is
  \<open>checkText\<close>, no line ever yields a column validation error for that column.
\<close>

theorem checkCategory_checkText:
  "checkCategory s = (s \<noteq> []) \<and> checkText s \<and>
   typecheckers pf ''category'' = Some checkCategory \<and>
   typecheckers pf ''text'' = Some checkText \<and>
   (2 \<le> length (Split line Delim) \<and> length (Split line Delim) = length (Headers t) \<and>
    parseRFC3339 (TrimSpace (Split line Delim ! 0)) \<noteq> None \<and>
    1 \<le> i \<and> i < length (Split line Delim) \<and> i < length (checkers t) \<and>
    (\<forall>j. 1 \<le> j \<and> j < i \<longrightarrow>
       (\<exists>c. checkers t ! j = Some c \<and> c (TrimSpace (Split line Delim ! j)))) \<and>
    checkers t ! i = Some checkCategory \<and> TrimSpace (Split line Delim ! i) = [] \<longrightarrow>
      ValidateLine t line = (Failed (ColumnValidationError (i + 1) []), t)) \<and>
   (checkers t ! i = Some checkText \<longrightarrow>
      (\<forall>v. fst (ValidateLine t line) \<noteq> Failed (ColumnValidationError (i + 1) v)))"
proof -
  let ?s = "Split line Delim"
  let ?f = "?s[0 := TrimSpace (?s ! 0)]"
  have cat: "ValidateLine t line = (Failed (ColumnValidationError (i + 1) []), t)"
    if len: "2 \<le> length ?s" "length ?s = length (Headers t)"
      and p: "parseRFC3339 (TrimSpace (?s ! 0)) \<noteq> None"
      and i: "1 \<le> i" "i < length ?s" "i < length (checkers t)"
      and before: "\<forall>j. 1 \<le> j \<and> j < i \<longrightarrow>
                     (\<exists>c. checkers t ! j = Some c \<and> c (TrimSpace (?s ! j)))"
      and c: "checkers t ! i = Some checkCategory" and e: "TrimSpace (?s ! i) = []"
  proof -
    have fj: "?f ! j = ?s ! j" if "1 \<le> j" for j using that by simp
    have "checkFields (checkers t) 1 ?f
            = Failed (ColumnValidationError (i + 1) (TrimSpace (?f ! i)))"
    proof (rule checkFields_first_fail [OF i(1) _ i(3) _ c])
      show "i < length ?f" using i by simp
      show "\<forall>j. 1 \<le> j \<and> j < i \<longrightarrow> (\<exists>c. checkers t ! j = Some c \<and> c (TrimSpace (?f ! j)))"
        using before fj by auto
      show "\<not> checkCategory (TrimSpace (?f ! i))"
        using e fj [OF i(1)] by (simp add: checkCategory_def)
    qed
    with e fj [OF i(1)]
    have "checkFields (checkers t) 1 ?f = Failed (ColumnValidationError (i + 1) [])"
      by simp
    moreover from len have "0 < length ?s" by linarith
    then have "?f ! 0 = TrimSpace (?s ! 0)" by simp
    with p obtain tline where "parseRFC3339 (?f ! 0) = Some tline" by auto
    ultimately show ?thesis using len by (simp add: ValidateLine_def Let_def)
  qed
  have textcol: "\<And>v. checkers t ! i = Some checkText \<Longrightarrow>
                fst (ValidateLine t line) \<noteq> Failed (ColumnValidationError (i + 1) v)"
  proof (rule notI)
    fix v
    assume c: "checkers t ! i = Some checkText"
    assume a: "fst (ValidateLine t line) = Failed (ColumnValidationError (i + 1) v)"
    then have "checkFields (checkers t) 1 ?f = Failed (ColumnValidationError (i + 1) v)"
      by (auto simp: ValidateLine_def Let_def split: if_splits option.splits outcome.splits)
    from checkFields_Failed [OF this] obtain k c' where
      "checkers t ! k = Some c'" "\<not> c' (TrimSpace (?f ! k))"
      "ColumnValidationError (i + 1) v = ColumnValidationError (k + 1) (TrimSpace (?f ! k))"
      by blast
    with c show False by (simp add: checkText_def)
  qed
  show ?thesis using cat textcol
    by (simp add: checkCategory_def checkText_def typecheckers_def)
qed

theorem checkCategory_checkText_witness:
  "ValidateLine categoryFields emptyFieldLine
     = (Failed (ColumnValidationError 2 []), categoryFields) \<and>
   (\<forall>v. fst (ValidateLine textFields emptyFieldLine) \<noteq> Failed (ColumnValidationError 2 v)) \<and>
   fst (ValidateLine textFields emptyFieldLine)
     = Returned \<lparr>Fields = [''2017-05-06T19:52:57.601Z'', []],
                 Time = \<lparr>year = 2017, month = 5, day = 6, hour = 19, minute = 52, second = 57,
                          nanosecond = 601000000, zone = None\<rparr>\<rparr> \<and>
   \<not> checkCategory [] \<and> checkText []"
proof -
  have s: "Split emptyFieldLine Delim = [''2017-05-06T19:52:57.601Z'', []]" by code_simp
  have p: "parseRFC3339 (TrimSpace ''2017-05-06T19:52:57.601Z'') \<noteq> None" by code_simp
  have e: "TrimSpace [] = []" by code_simp
  have c: "checkers categoryFields ! 1 = Some checkCategory" "length (checkers categoryFields) = 2"
    "length (Headers categoryFields) = 2"
    by (simp_all add: categoryFields_def)
  have x: "checkers textFields ! 1 = Some checkText" by (simp add: textFields_def)
  have r: "fst (ValidateLine textFields emptyFieldLine)
     = Returned \<lparr>Fields = [''2017-05-06T19:52:57.601Z'', []],
                 Time = \<lparr>year = 2017, month = 5, day = 6, hour = 19, minute = 52, second = 57,
                          nanosecond = 601000000, zone = None\<rparr>\<rparr>" by code_simp
  from checkCategory_checkText
         [where s = "[]" and pf = exampleParseFloat and line = emptyFieldLine
            and t = categoryFields and i = 1]
    checkCategory_checkText
         [where s = "[]" and pf = exampleParseFloat and line = emptyFieldLine
            and t = textFields and i = 1]
    s p e c x r
  show ?thesis by simp
qed
subsection \<open>Metadata validation and header parsing\<close>

lemma rangeFind_eq:
  "rangeFind P i xs =
     (if list_ex P xs then Some (i + length (takeWhile (\<lambda>x. \<not> P x) xs)) else None)"
  by (induction xs arbitrary: i) auto

lemma rangeFind_firstColumn:
  "rangeFind P 0 xs = (if list_ex P xs then Some (spec_firstColumn P xs - 1) else None)"
  by (simp add: rangeFind_eq spec_firstColumn_def)

lemma typecheckers_recognized: "Option.is_none (typecheckers pf ty) = (\<not> spec_recognized ty)"
  by (simp add: typecheckers_def spec_recognized_def Option.is_none_def)

lemma list_ex_not_recognized: "list_ex (\<lambda>ty. \<not> spec_recognized ty) xs = (\<not> list_all spec_recognized xs)"
  by (induction xs) auto

lemma take_one_eq: "(take (Suc 0) xs = [a]) = (xs \<noteq> [] \<and> xs ! 0 = a)"
  by (cases xs) auto

lemma ValidateMetadata_firstFailure:
  "ValidateMetadata pf m = spec_firstFailure spec_checks m"
  unfolding ValidateMetadata_def spec_checks_def
  by (simp add: Let_def spec_check1_def spec_check2_def spec_check3_def spec_check4_def spec_check5_def spec_check6_def
      spec_check7_def spec_check8_def spec_check9_def spec_check10_def spec_check11_def spec_check12_def
      rangeFind_firstColumn typecheckers_recognized list_ex_not_recognized take_one_eq
      spec_firstColumn_def)

lemma ValidateMetadata_None:
  "ValidateMetadata pf m = None \<longleftrightarrow>
     FileType m \<noteq> [] \<and> Project m \<noteq> [] \<and> (\<forall>c \<in> set (Comments m). c \<noteq> []) \<and>
     (Comments m \<noteq> [] \<longrightarrow> length (Comments m) = length (Types m)) \<and>
     (\<forall>ty \<in> set (Types m). spec_recognized ty) \<and>
     length (Units m) = length (Types m) \<and> (\<forall>u \<in> set (Units m). u \<noteq> []) \<and>
     length (Headers m) = length (Types m) \<and> Headers m ! 0 = ''time'' \<and>
     (\<forall>h \<in> set (Headers m). h \<noteq> []) \<and> 2 \<le> length (Types m)"
  unfolding ValidateMetadata_firstFailure spec_checks_def
  by (auto simp: spec_check1_def spec_check2_def spec_check3_def spec_check4_def spec_check5_def spec_check6_def
      spec_check7_def spec_check8_def spec_check9_def spec_check10_def spec_check11_def spec_check12_def take_one_eq
      list_ex_iff list_all_iff)

lemma ParseHeader_wrong_count:
  "length (Split (TrimSuffix header [newline]) newline) \<noteq> HeaderSize \<Longrightarrow>
     ParseHeader pf t header
       = (t, Some (HeaderShapeError HeaderSize
                     (length (Split (TrimSuffix header [newline]) newline))))"
  by (simp add: ParseHeader_def Let_def)

lemma ParseHeader_right_count:
  assumes "length (Split (TrimSuffix header [newline]) newline) = HeaderSize"
  shows "snd (ParseHeader pf t header) = ValidateMetadata pf (fst (ParseHeader pf t header)) \<and>
         checkers (fst (ParseHeader pf t header))
           = map (typecheckers pf) (Types (fst (ParseHeader pf t header)))"
  using assms by (simp add: ParseHeader_def Let_def)

text \<open>
  Claim C5. \<open>ValidateMetadata\<close> returns the error of the first of the twelve checks of
  section 4.2 that fails, taken in the order of that section, and no error when none fails;
  the error names the rule and, for a rule about columns, the first offending column. An
  empty \<open>FileType\<close> is reported whatever else is wrong, and the no-data-columns error is
  returned exactly when the first eleven checks pass and there are fewer than two types:
  that check is the last.
\<close>

theorem ValidateMetadata_order:
  "ValidateMetadata pf m = spec_firstFailure spec_checks m \<and>
   (FileType m = [] \<longrightarrow> ValidateMetadata pf m = Some MissingFileType) \<and>
   (ValidateMetadata pf m = Some NoDataColumns \<longleftrightarrow>
      spec_firstFailure (butlast spec_checks) m = None \<and> length (Types m) < 2)"
proof -
  have eq: "ValidateMetadata pf m = spec_firstFailure spec_checks m"
    by (rule ValidateMetadata_firstFailure)
  have first: "ValidateMetadata pf m = Some MissingFileType" if "FileType m = []"
    using that by (simp add: ValidateMetadata_def)
  have app: "spec_firstFailure (cs @ [c]) m
               = (case spec_firstFailure cs m of Some e \<Rightarrow> Some e | None \<Rightarrow> c m)" for cs c
    by (induction cs) (auto split: option.splits)
  have bl: "spec_checks = butlast spec_checks @ [spec_check12]"
    by (simp add: spec_checks_def)
  have no12: "spec_firstFailure (butlast spec_checks) m \<noteq> Some NoDataColumns"
    by (simp add: spec_checks_def spec_check1_def spec_check2_def spec_check3_def spec_check4_def spec_check5_def
        spec_check6_def spec_check7_def spec_check8_def spec_check9_def spec_check10_def spec_check11_def
        split: option.splits)
  have last: "ValidateMetadata pf m = Some NoDataColumns \<longleftrightarrow>
      spec_firstFailure (butlast spec_checks) m = None \<and> length (Types m) < 2"
    unfolding eq
    by (subst bl, unfold app) (use no12 in \<open>auto simp: spec_check12_def split: option.splits\<close>)
  from eq first last show ?thesis by blast
qed

theorem ValidateMetadata_order_witness:
  "FileType oneColumn = [] \<and>
   ValidateMetadata exampleParseFloat oneColumn = Some MissingFileType \<and>
   ValidateMetadata exampleParseFloat (oneColumn\<lparr>FileType := ''fileType''\<rparr>)
     = Some NoDataColumns \<and>
   spec_firstFailure (butlast spec_checks) (oneColumn\<lparr>FileType := ''fileType''\<rparr>) = None \<and>
   length (Types (oneColumn\<lparr>FileType := ''fileType''\<rparr>)) < 2"
proof -
  have a: "FileType oneColumn = []" by code_simp
  have b: "ValidateMetadata exampleParseFloat (oneColumn\<lparr>FileType := ''fileType''\<rparr>)
             = Some NoDataColumns" by code_simp
  from ValidateMetadata_order [of exampleParseFloat oneColumn]
    ValidateMetadata_order [of exampleParseFloat "oneColumn\<lparr>FileType := ''fileType''\<rparr>"] a b
  show ?thesis by blast
qed

text \<open>
  Claim C10. After a \<open>ParseHeader\<close> that returned no error, whatever the receiver was
  before, \<open>checkers\<close> has as many entries as there are headers, every entry is one of the
  six predicates of the table (none is nil), and \<open>ValidateLine\<close> panics on no line: it
  reaches the field loop only when the field count equals the header count, so every index
  it uses is within \<open>checkers\<close>. \<open>ValidateLine\<close> leaves \<open>checkers\<close> and \<open>Headers\<close> as they
  are, so the same holds after any number of validated lines.
\<close>

theorem ParseHeader_checkers_safe:
  assumes "ParseHeader pf t0 header = (t, None)"
  shows "length (checkers t) = length (Headers t) \<and>
         (\<forall>c \<in> set (checkers t).
            c \<in> {Some checkTime, Some (checkFloat pf), Some checkInteger, Some checkText,
                 Some checkCategory, Some checkBoolean}) \<and>
         (\<forall>line p. fst (ValidateLine t line) \<noteq> Panicked p) \<and>
         (\<forall>line. checkers (snd (ValidateLine t line)) = checkers t \<and>
                 Headers (snd (ValidateLine t line)) = Headers t)"
proof -
  let ?n = "length (Split (TrimSuffix header [newline]) newline)"
  have n: "?n = HeaderSize"
  proof (rule ccontr)
    assume "?n \<noteq> HeaderSize"
    from ParseHeader_wrong_count [OF this, of pf t0] assms show False by simp
  qed
  from ParseHeader_right_count [OF n, of pf t0] assms
  have valid: "ValidateMetadata pf t = None"
    and cs: "checkers t = map (typecheckers pf) (Types t)" by simp_all
  from valid have rec: "\<forall>ty \<in> set (Types t). spec_recognized ty"
    and len: "length (Headers t) = length (Types t)"
    by (simp_all add: ValidateMetadata_None)
  have l: "length (checkers t) = length (Headers t)" using cs len by simp
  have six: "typecheckers pf ty \<in> {Some checkTime, Some (checkFloat pf), Some checkInteger,
               Some checkText, Some checkCategory, Some checkBoolean}" if "spec_recognized ty" for ty
    using that by (auto simp: spec_recognized_def typecheckers_def)
  have mem: "\<forall>c \<in> set (checkers t).
            c \<in> {Some checkTime, Some (checkFloat pf), Some checkInteger, Some checkText,
                 Some checkCategory, Some checkBoolean}"
    unfolding cs using rec six by auto
  have some: "checkers t ! k \<noteq> None" if "k < length (checkers t)" for k
  proof -
    from that have "checkers t ! k \<in> set (checkers t)" by simp
    with mem show ?thesis by auto
  qed
  have nopanic: "fst (ValidateLine t line) \<noteq> Panicked p" for line p
  proof
    assume a: "fst (ValidateLine t line) = Panicked p"
    let ?s = "Split line Delim"
    let ?f = "?s[0 := TrimSpace (?s ! 0)]"
    from a have eqlen: "length ?s = length (Headers t)"
      and "checkFields (checkers t) 1 ?f = Panicked p"
      by (auto simp: ValidateLine_def Let_def split: if_splits option.splits outcome.splits)
    from checkFields_Panicked [OF this(2)] obtain k where
      "k < length ?f" "length (checkers t) \<le> k \<or> checkers t ! k = None" by blast
    with eqlen l some [of k] show False by auto
  qed
  have same: "checkers (snd (ValidateLine t line)) = checkers t \<and>
                 Headers (snd (ValidateLine t line)) = Headers t" for line
    using ValidateLine_receiver [of t line] by auto
  from l mem nopanic same show ?thesis by blast
qed

theorem ParseHeader_checkers_safe_witness:
  "ParseHeader exampleParseFloat emptyTsdata exampleHeader
     = (fst (ParseHeader exampleParseFloat emptyTsdata exampleHeader), None) \<and>
   length (checkers (fst (ParseHeader exampleParseFloat emptyTsdata exampleHeader))) = 2 \<and>
   Headers (fst (ParseHeader exampleParseFloat emptyTsdata exampleHeader)) = [''time'', ''col1''] \<and>
   (\<forall>line p. fst (ValidateLine (fst (ParseHeader exampleParseFloat emptyTsdata exampleHeader)) line)
       \<noteq> Panicked p)"
proof -
  let ?t = "fst (ParseHeader exampleParseFloat emptyTsdata exampleHeader)"
  have ok: "snd (ParseHeader exampleParseFloat emptyTsdata exampleHeader) = None" by code_simp
  have h: "Headers ?t = [''time'', ''col1'']" by code_simp
  have run: "ParseHeader exampleParseFloat emptyTsdata exampleHeader = (?t, None)"
    by (rule prod_eqI) (simp_all only: fst_conv snd_conv ok)
  from ParseHeader_checkers_safe [OF run] h run show ?thesis by simp
qed
subsection \<open>The texts of the errors\<close>
















subsection \<open>The errors of header parsing\<close>




subsection \<open>Rendering a header and parsing it again\<close>

lemma Split_no_sep: "sep \<notin> set a \<Longrightarrow> Split a sep = [a]"
  by (induction a) auto

lemma Split_append_sep: "sep \<notin> set a \<Longrightarrow> Split (a @ sep # b) sep = a # Split b sep"
  by (induction a) auto

lemma Split_Join:
  "xs \<noteq> [] \<Longrightarrow> \<forall>x \<in> set xs. sep \<notin> set x \<Longrightarrow> Split (Join xs sep) sep = xs"
proof (induction xs sep rule: Join.induct)
  case (1 sep)
  then show ?case by simp
next
  case (2 x sep)
  then show ?case by (simp add: Split_no_sep)
next
  case (3 x y ys sep)
  then show ?case by (simp add: Split_append_sep)
qed

lemma set_Join: "set (Join xs sep) \<subseteq> (\<Union>x \<in> set xs. set x) \<union> {sep}"
  by (induction xs sep rule: Join.induct) auto

lemma Join_nonempty: "xs \<noteq> [] \<Longrightarrow> last xs \<noteq> [] \<Longrightarrow> Join xs sep \<noteq> []"
  by (induction xs sep rule: Join.induct) auto

lemma last_Join: "xs \<noteq> [] \<Longrightarrow> last xs \<noteq> [] \<Longrightarrow> last (Join xs sep) = last (last xs)"
proof (induction xs sep rule: Join.induct)
  case (3 x y ys sep)
  then have "Join (y # ys) sep \<noteq> []" by (intro Join_nonempty) auto
  with 3 show ?case by simp
qed auto

lemma TrimRight_id: "s = [] \<or> last s \<notin> set cutset \<Longrightarrow> TrimRight s cutset = s"
proof (cases "s = []")
  case True
  then show ?thesis by (simp add: TrimRight_def)
next
  case False
  assume "s = [] \<or> last s \<notin> set cutset"
  with False have "hd (rev s) \<notin> set cutset" by (simp add: hd_rev)
  moreover from False have "rev s \<noteq> []" by simp
  ultimately have "dropWhile (\<lambda>c. c \<in> set cutset) (rev s) = rev s"
    by (cases "rev s") auto
  then show ?thesis by (simp add: TrimRight_def)
qed

lemma TrimSuffix_id: "s = [] \<or> last s \<noteq> c \<Longrightarrow> TrimSuffix s [c] = s"
proof (cases "s = []")
  case True
  then show ?thesis by (simp add: TrimSuffix_def)
next
  case False
  assume "s = [] \<or> last s \<noteq> c"
  with False have l: "last s \<noteq> c" by simp
  from False have "drop (length s - 1) s = [last s]"
    by (metis append_butlast_last_id append_eq_conv_conj length_butlast)
  with l show ?thesis by (simp add: TrimSuffix_def)
qed

declare TrimLeftSpace.simps [simp del] TrimRightSpace.simps [simp del]

lemma TrimRightSpace_length: "length (TrimRightSpace s) \<le> length s"
proof (induction s rule: TrimRightSpace.induct)
  case (1 s)
  show ?case
  proof (cases "trailingSpace s = 0")
    case True
    then show ?thesis by (simp add: TrimRightSpace.simps [of s])
  next
    case False
    with "1.IH" have "length (TrimRightSpace (take (length s - trailingSpace s) s)) \<le> length s"
      by simp
    with False show ?thesis by (simp add: TrimRightSpace.simps [of s])
  qed
qed

lemma TrimLeftSpace_drop: "\<exists>k. TrimLeftSpace s = drop k s"
proof (induction s rule: TrimLeftSpace.induct)
  case (1 s)
  show ?case
  proof (cases "leadingSpace s = 0")
    case True
    then have "TrimLeftSpace s = drop 0 s" by (simp add: TrimLeftSpace.simps [of s])
    then show ?thesis by blast
  next
    case False
    with "1.IH" obtain k where "TrimLeftSpace (drop (leadingSpace s) s) = drop k (drop (leadingSpace s) s)"
      by blast
    with False have "TrimLeftSpace s = drop (leadingSpace s + k) s"
      by (simp add: TrimLeftSpace.simps [of s] add.commute)
    then show ?thesis by blast
  qed
qed

lemma trailingSpace_pos:
  assumes "s \<noteq> []" "[last s] \<in> set spaceRunes"
  shows "trailingSpace s \<noteq> 0"
proof -
  let ?P = "\<lambda>w. length w \<le> length s \<and> drop (length s - length w) s = w"
  from assms(1) have "drop (length s - 1) s = [last s]"
    by (metis append_butlast_last_id append_eq_conv_conj length_butlast)
  with assms have "?P [last s]" by (cases s) auto
  with assms(2) have "\<exists>w \<in> set spaceRunes. ?P w" by blast
  then obtain w where w: "find ?P spaceRunes = Some w"
    by (cases "find ?P spaceRunes") (auto simp: find_None_iff)
  then have "w \<in> set spaceRunes" by (auto simp: find_Some_iff)
  then have "w \<noteq> []" by (auto simp: spaceRunes_def)
  with w show ?thesis by (simp add: trailingSpace_def)
qed

lemma TrimSpace_fixed_last:
  assumes "TrimSpace s = s" "s \<noteq> []"
  shows "last s \<notin> set [CHR 0x20, CHR 0x09, CHR 0x0D]"
proof
  assume a: "last s \<in> set [CHR 0x20, CHR 0x09, CHR 0x0D]"
  then have sp: "[last s] \<in> set spaceRunes" by (auto simp: spaceRunes_def)
  let ?l = "TrimLeftSpace s"
  have "length s = length (TrimRightSpace ?l)" using assms(1) by (simp add: TrimSpace_def)
  also have "\<dots> \<le> length ?l" by (rule TrimRightSpace_length)
  finally have "length s \<le> length ?l" .
  moreover obtain k where k: "?l = drop k s" using TrimLeftSpace_drop by blast
  ultimately have "length s \<le> length s - k" by simp
  moreover have "0 < length s" using assms(2) by simp
  ultimately have "k = 0" by linarith
  with k have "?l = s" by simp
  with assms(1) have stable: "TrimRightSpace s = s" by (simp add: TrimSpace_def)
  from trailingSpace_pos [OF assms(2) sp] have pos: "trailingSpace s \<noteq> 0" .
  then have "TrimRightSpace s = TrimRightSpace (take (length s - trailingSpace s) s)"
    by (simp add: TrimRightSpace.simps [of s])
  then have "length (TrimRightSpace s) \<le> length (take (length s - trailingSpace s) s)"
    using TrimRightSpace_length [of "take (length s - trailingSpace s) s"] by simp
  also have "\<dots> < length s" using pos assms(2) by simp
  finally show False using stable by simp
qed

lemma plainCell_NA: "plainCell NA"
  by code_simp

lemma recognized_plainCell:
  assumes "spec_recognized ty"
  shows "plainCell ty \<and> ty \<noteq> []"
proof -
  have "list_all (\<lambda>x. plainCell x \<and> x \<noteq> [])
          [''time'', ''float'', ''integer'', ''text'', ''category'', ''boolean'']"
    by code_simp
  with assms show ?thesis by (auto simp: spec_recognized_def)
qed

lemma line_of_cells:
  assumes ne: "xs \<noteq> []" and cells: "\<forall>x \<in> set xs. plainCell x \<and> x \<noteq> []"
  shows "newline \<notin> set (Join xs Delim)"
    and "Join xs Delim \<noteq> []"
    and "TrimRight (Join xs Delim) [CHR 0x20, CHR 0x09, CHR 0x0D] = Join xs Delim"
    and "map TrimSpace (Split (Join xs Delim) Delim) = xs"
proof -
  have nd: "newline \<noteq> Delim" by (simp add: newline_def Delim_def)
  show "newline \<notin> set (Join xs Delim)"
    using set_Join [of xs Delim] cells nd by (auto simp: plainCell_def)
  from ne have lx: "last xs \<in> set xs" by simp
  with cells have l: "last xs \<noteq> []" and pl: "plainCell (last xs)" by auto
  from Join_nonempty [OF ne l] show j: "Join xs Delim \<noteq> []" .
  have "last (Join xs Delim) = last (last xs)" by (rule last_Join [OF ne l])
  moreover have "last (last xs) \<notin> set [CHR 0x20, CHR 0x09, CHR 0x0D]"
    using pl l by (intro TrimSpace_fixed_last) (simp_all add: plainCell_def)
  ultimately show "TrimRight (Join xs Delim) [CHR 0x20, CHR 0x09, CHR 0x0D] = Join xs Delim"
    by (intro TrimRight_id) simp
  have "Split (Join xs Delim) Delim = xs"
    using ne cells by (intro Split_Join) (auto simp: plainCell_def)
  moreover have "map TrimSpace xs = xs"
    using cells by (intro map_idI) (simp add: plainCell_def)
  ultimately show "map TrimSpace (Split (Join xs Delim) Delim) = xs" by simp
qed

lemma plain_line:
  assumes "plainLine s"
  shows "newline \<notin> set s" and "TrimRight s [CHR 0x20, CHR 0x09, CHR 0x0D] = s"
    and "Split s Delim ! 0 = s"
  using assms by (simp_all add: plainLine_def Split_no_sep)

lemma Split_seven:
  assumes "sep \<notin> set a0" "sep \<notin> set a1" "sep \<notin> set a2" "sep \<notin> set a3" "sep \<notin> set a4"
    "sep \<notin> set a5" "sep \<notin> set a6"
  shows "Split (a0 @ sep # a1 @ sep # a2 @ sep # a3 @ sep # a4 @ sep # a5 @ sep # a6) sep
           = [a0, a1, a2, a3, a4, a5, a6]"
  using assms by (simp add: Split_append_sep Split_no_sep)

text \<open>
  Claim C2, as amended. For every metadata value \<open>m\<close> that passes \<open>ValidateMetadata\<close> and
  whose strings survive the parser's cutting and trimming (\<open>roundTrippable\<close>: no tab or
  newline in any string, no trailing space, tab or carriage return in \<open>FileType\<close>,
  \<open>Project\<close> and \<open>FileDescription\<close>, no leading or trailing white space in a cell),
  parsing the rendered header succeeds on any receiver and leaves it with the fields of
  \<open>m\<close>, except that empty \<open>Comments\<close> come back as one \<open>NA\<close> per column; \<open>checkers\<close> is
  derived from the types and \<open>lastTime\<close> is that of the receiver.
\<close>

theorem Header_ParseHeader_round_trip:
  assumes valid: "ValidateMetadata pf m = None" and plain: "roundTrippable m"
  shows "ParseHeader pf t (Header m) =
           (m\<lparr>checkers := map (typecheckers pf) (Types m), lastTime := lastTime t,
              Comments := (if Comments m = [] then replicate (length (Headers m)) NA
                           else Comments m)\<rparr>,
            None)"
proof -
  define cs where "cs = (if Comments m = [] then replicate (length (Headers m)) NA else Comments m)"
  define l3 where "l3 = Join cs Delim"
  define l4 where "l4 = Join (Types m) Delim"
  define l5 where "l5 = Join (Units m) Delim"
  define l6 where "l6 = Join (Headers m) Delim"
  note v = valid [unfolded ValidateMetadata_None]
  from v have n2: "2 \<le> length (Types m)" and ul: "length (Units m) = length (Types m)"
    and hl: "length (Headers m) = length (Types m)" by simp_all
  from plain have pF: "plainLine (FileType m)" and pP: "plainLine (Project m)"
    and pD: "plainLine (FileDescription m)" and pC: "\<forall>c \<in> set (Comments m). plainCell c"
    and pU: "\<forall>c \<in> set (Units m). plainCell c" and pH: "\<forall>c \<in> set (Headers m). plainCell c"
    by (simp_all add: roundTrippable_def list_all_iff)
  have cs_ne: "cs \<noteq> []" using n2 hl by (auto simp: cs_def)
  have cs_cells: "\<forall>x \<in> set cs. plainCell x \<and> x \<noteq> []"
    using v pC plainCell_NA by (auto simp: cs_def NA_def)
  have ty_ne: "Types m \<noteq> []" using n2 by auto
  have ty_cells: "\<forall>x \<in> set (Types m). plainCell x \<and> x \<noteq> []"
    using v recognized_plainCell by blast
  have un_ne: "Units m \<noteq> []" using n2 ul by auto
  have un_cells: "\<forall>x \<in> set (Units m). plainCell x \<and> x \<noteq> []" using v pU by blast
  have hd_ne: "Headers m \<noteq> []" using n2 hl by auto
  have hd_cells: "\<forall>x \<in> set (Headers m). plainCell x \<and> x \<noteq> []" using v pH by blast
  note c3 = line_of_cells [OF cs_ne cs_cells, folded l3_def]
  note c4 = line_of_cells [OF ty_ne ty_cells, folded l4_def]
  note c5 = line_of_cells [OF un_ne un_cells, folded l5_def]
  note c6 = line_of_cells [OF hd_ne hd_cells, folded l6_def]
  have header: "Header m = FileType m @ newline # Project m @ newline # FileDescription m @
                  newline # l3 @ newline # l4 @ newline # l5 @ newline # l6"
    by (simp add: Header_def Let_def nas_def l3_def l4_def l5_def l6_def cs_def)
  have "last (Header m) = last l6" unfolding header using c6(2) by simp
  moreover have "last l6 \<in> set l6" using c6(2) by simp
  ultimately have "last (Header m) \<noteq> newline" using c6(1) by metis
  then have ts: "TrimSuffix (Header m) [newline] = Header m" by (intro TrimSuffix_id) simp
  have "Split (Header m) newline = [FileType m, Project m, FileDescription m, l3, l4, l5, l6]"
    unfolding header
    by (rule Split_seven) (fact plain_line(1) [OF pF] plain_line(1) [OF pP]
        plain_line(1) [OF pD] c3(1) c4(1) c5(1) c6(1))+
  then have lines: "Split (TrimSuffix (Header m) [newline]) newline
                 = [FileType m, Project m, FileDescription m, l3, l4, l5, l6]"
    by (simp only: ts)
  have fst_eq: "fst (ParseHeader pf t (Header m))
      = t\<lparr>FileType := FileType m, Project := Project m, FileDescription := FileDescription m,
           Comments := cs, Types := Types m, Units := Units m, Headers := Headers m,
           checkers := map (typecheckers pf) (Types m)\<rparr>"
    by (simp add: ParseHeader_def Let_def lines HeaderSize_def
        plain_line(2,3) [OF pF] plain_line(2,3) [OF pP] plain_line(2,3) [OF pD]
        c3(2-4) c4(2-4) c5(2-4) c6(2-4))
  also have "\<dots> = m\<lparr>checkers := map (typecheckers pf) (Types m), lastTime := lastTime t,
                      Comments := cs\<rparr>"
    by (rule Tsdata.equality) simp_all
  finally have r: "fst (ParseHeader pf t (Header m))
      = m\<lparr>checkers := map (typecheckers pf) (Types m), lastTime := lastTime t, Comments := cs\<rparr>" .
  have "length (Split (TrimSuffix (Header m) [newline]) newline) = HeaderSize"
    by (simp add: lines HeaderSize_def)
  from ParseHeader_right_count [OF this, of pf t]
  have "snd (ParseHeader pf t (Header m))
          = ValidateMetadata pf (m\<lparr>checkers := map (typecheckers pf) (Types m),
                                   lastTime := lastTime t, Comments := cs\<rparr>)"
    by (simp add: r)
  also have "\<dots> = None"
    unfolding ValidateMetadata_None using v hl cs_cells by (auto simp: cs_def)
  finally have s: "snd (ParseHeader pf t (Header m)) = None" .
  show ?thesis by (rule prod_eqI) (simp_all add: r s cs_def)
qed

theorem Header_ParseHeader_round_trip_witness:
  "ValidateMetadata exampleParseFloat noComments = None \<and>
   roundTrippable noComments \<and>
   Comments noComments = [] \<and>
   ParseHeader exampleParseFloat emptyTsdata (Header noComments) =
     (noComments\<lparr>checkers := map (typecheckers exampleParseFloat) (Types noComments),
                  lastTime := lastTime emptyTsdata,
                  Comments := (if Comments noComments = []
                               then replicate (length (Headers noComments)) NA
                               else Comments noComments)\<rparr>,
      None) \<and>
   Comments (fst (ParseHeader exampleParseFloat emptyTsdata (Header noComments))) = [''NA'', ''NA'']"
proof -
  have a: "ValidateMetadata exampleParseFloat noComments = None" by code_simp
  have b: "roundTrippable noComments" by code_simp
  have c: "Comments noComments = []" by code_simp
  have d: "Comments (fst (ParseHeader exampleParseFloat emptyTsdata (Header noComments)))
             = [''NA'', ''NA'']" by code_simp
  from a b c Header_ParseHeader_round_trip [OF a b, of emptyTsdata] d
  show ?thesis by blast
qed

text \<open>
  Claim C2 as stated, for every metadata value that passes validation, fails: validation
  does not look for delimiters inside the strings. With a tab in \<open>FileType\<close> the rendered
  header parses without error to a different \<open>FileType\<close>; with a newline in it the rendered
  header has 8 lines and parsing fails.
\<close>

theorem round_trip_counterexample:
  "ValidateMetadata exampleParseFloat tabInFileType = None \<and>
   snd (ParseHeader exampleParseFloat emptyTsdata (Header tabInFileType)) = None \<and>
   FileType (fst (ParseHeader exampleParseFloat emptyTsdata (Header tabInFileType))) = ''file'' \<and>
   FileType tabInFileType \<noteq> ''file'' \<and>
   ValidateMetadata exampleParseFloat newlineInFileType = None \<and>
   snd (ParseHeader exampleParseFloat emptyTsdata (Header newlineInFileType))
     = Some (HeaderShapeError 7 8)"
  by code_simp


end
